theory Spec2Isabelle
  imports Main
begin

unbundle bit_operations_syntax

chapter \<open>The model\<close>

section \<open>Python exceptions\<close>

text \<open>
  A raised exception is a value. The two constructors separate what the source's two
  kinds of handler separate: \<open>except Exception\<close> catches an \<open>Exn\<close> only, a bare
  \<open>except:\<close> catches both. \<open>Exn n\<close> is an instance of a subclass \<open>n\<close> of
  \<open>Exception\<close> (\<open>OSError\<close>, \<open>ValueError\<close>, \<open>AttributeError\<close>, a timeout, ...);
  \<open>BaseExn n\<close> is a \<open>BaseException\<close> that is not an \<open>Exception\<close>
  (\<open>KeyboardInterrupt\<close>, \<open>SystemExit\<close>).
\<close>

datatype exn = Exn string | BaseExn string

section \<open>dev002.py: \<open>SmartHomeLightController.encrypt_tplink\<close>\<close>

text \<open>
  \<^verbatim>\<open>
  def encrypt_tplink(self, data):
      key = 171
      result = bytearray([0, 0, 0, len(data)])
      for char in data:
          a = key ^ ord(char)
          key = a
          result.append(a)
      return bytes(result)
  \<close>
  A Python \<open>str\<close> is a sequence of code points, so \<open>data\<close> is a list of naturals
  (\<open>ord(char)\<close>). A \<open>bytearray\<close> holds integers below 256: both its constructor and
  \<open>append\<close> raise \<open>ValueError\<close> on any other value. The bytes are naturals too; the
  range check is written out where the source's \<open>bytearray\<close> makes it.
\<close>

fun encrypt_tplink_loop :: "nat \<Rightarrow> nat list \<Rightarrow> nat list \<Rightarrow> exn + nat list" where
  "encrypt_tplink_loop key [] result = Inr result"
| "encrypt_tplink_loop key (char # data) result =
     (let a = key XOR char in
      if a < 256 then encrypt_tplink_loop a data (result @ [a])
      else Inl (Exn ''ValueError''))"

definition encrypt_tplink :: "nat list \<Rightarrow> exn + nat list" where
  "encrypt_tplink data =
     (if length data < 256 then encrypt_tplink_loop 171 data [0, 0, 0, length data]
      else Inl (Exn ''ValueError''))"

text \<open>The XOR chain on its own: every output is the input XORed with the previous output.\<close>

fun xor_chain :: "nat \<Rightarrow> nat list \<Rightarrow> nat list" where
  "xor_chain key [] = []"
| "xor_chain key (c # cs) = (key XOR c) # xor_chain (key XOR c) cs"

section \<open>Values, network actions and the environment\<close>

text \<open>
  What \<open>response.json()\<close> can return: the Python value of a JSON document. A
  \<open>PDict\<close> holds the items of the dictionary (every key once); \<open>PFloat m e\<close> is
  the float \<open>m * 2 ^ e\<close>. Only truthiness, iteration and \<open>.get\<close> matter to the
  source, and they are defined on every case.
\<close>

datatype pyval =
    PNone
  | PBool bool
  | PInt int
  | PFloat int int
  | PStr string
  | PList "pyval list"
  | PDict "(string \<times> pyval) list"

datatype verb = GET | POST

text \<open>
  The path of a request: a literal, or the f-string of \<open>turn_off_zone\<close> with the zone
  id interpolated between a prefix and a suffix (\<open>f'/zone/{zone_id}/off'\<close>). The
  interpolation is kept symbolic: formatting a value that came out of JSON never raises.
\<close>

datatype path = Path string | ZonePath string pyval string

datatype sock_type = SOCK_STREAM | SOCK_DGRAM

text \<open>
  Everything the three scripts do to the outside world, in the order they do it. An HTTP
  request carries verb, host, port and path; headers, credentials, payload and timeout
  are fixed by verb and path in the source and are left out. A payload sent on a socket
  is the hex literal the source passes to \<open>bytes.fromhex\<close>. \<open>Sleep\<close> is in
  milliseconds. Logging and printing are not modelled.
\<close>

datatype action =
    Http verb string nat path
  | SockOpen sock_type
  | SockSetTimeout nat
  | SockConnectEx string nat
  | SockConnect string nat
  | SockSend string
  | SockSendTo string string nat
  | SockRecv nat
  | SockClose
  | Sleep nat

type_synonym trace = "action list"

record response =
  status_code :: int
  json_body :: "pyval option"

text \<open>
  The environment answers every action that reaches the network, and may look at all
  that happened before (the trace so far), so that a controller with state of its own,
  a flaky network and a fixed stub are all environments. An HTTP request raises or
  returns a response, whose body parses as JSON (\<open>Some\<close>) or does not;
  \<open>connect_ex\<close> raises or returns an error code; \<open>connect\<close>, \<open>send\<close>,
  \<open>sendto\<close> and \<open>recv\<close> raise or complete (the source never reads what they
  return). Creating a socket, setting its timeout and closing it act on the local
  descriptor only: they are recorded in the trace and do not raise.
\<close>

record env =
  http_reply :: "trace \<Rightarrow> verb \<Rightarrow> string \<Rightarrow> nat \<Rightarrow> path \<Rightarrow> exn + response"
  connect_ex_reply :: "trace \<Rightarrow> string \<Rightarrow> nat \<Rightarrow> exn + int"
  socket_error :: "trace \<Rightarrow> action \<Rightarrow> exn option"

section \<open>Programs: a trace, and a value or an exception\<close>

type_synonym 'a io = "trace \<Rightarrow> (exn + 'a) \<times> trace"

definition return_io :: "'a \<Rightarrow> 'a io" where
  "return_io x h = (Inr x, h)"

definition raise_io :: "exn \<Rightarrow> 'a io" where
  "raise_io e h = (Inl e, h)"

definition bind_io :: "'a io \<Rightarrow> ('a \<Rightarrow> 'b io) \<Rightarrow> 'b io" where
  "bind_io p f h = (case p h of (Inl e, h') \<Rightarrow> (Inl e, h') | (Inr x, h') \<Rightarrow> f x h')"

definition lift_io :: "exn + 'a \<Rightarrow> 'a io" where
  "lift_io r h = (r, h)"

text \<open>\<open>try: p except: handler\<close>, the bare handler, which catches every exception.\<close>

definition try_except :: "'a io \<Rightarrow> 'a io \<Rightarrow> 'a io" where
  "try_except p handler h =
     (case p h of (Inl e, h') \<Rightarrow> handler h' | (Inr x, h') \<Rightarrow> (Inr x, h'))"

text \<open>\<open>try: p except Exception as e: handler\<close>, which lets a \<open>BaseExn\<close> through.\<close>

definition try_except_Exception :: "'a io \<Rightarrow> (exn \<Rightarrow> 'a io) \<Rightarrow> 'a io" where
  "try_except_Exception p handler h =
     (case p h of
        (Inl (Exn n), h') \<Rightarrow> handler (Exn n) h'
      | (Inl (BaseExn n), h') \<Rightarrow> (Inl (BaseExn n), h')
      | (Inr x, h') \<Rightarrow> (Inr x, h'))"

text \<open>An action answered by the environment, from the trace before it; a local one.\<close>

definition perform :: "action \<Rightarrow> (trace \<Rightarrow> exn + 'a) \<Rightarrow> 'a io" where
  "perform a reply h = (reply h, h @ [a])"

definition effect :: "action \<Rightarrow> unit io" where
  "effect a h = (Inr (), h @ [a])"

definition http_request :: "env \<Rightarrow> verb \<Rightarrow> string \<Rightarrow> nat \<Rightarrow> path \<Rightarrow> response io" where
  "http_request env v host prt p = perform (Http v host prt p) (\<lambda>h. http_reply env h v host prt p)"

definition response_json :: "response \<Rightarrow> pyval io" where
  "response_json r =
     (case json_body r of None \<Rightarrow> raise_io (Exn ''JSONDecodeError'') | Some v \<Rightarrow> return_io v)"

definition sock_open :: "sock_type \<Rightarrow> unit io" where
  "sock_open ty = effect (SockOpen ty)"

definition sock_settimeout :: "nat \<Rightarrow> unit io" where
  "sock_settimeout secs = effect (SockSetTimeout secs)"

definition sock_close :: "unit io" where
  "sock_close = effect SockClose"

definition sock_connect_ex :: "env \<Rightarrow> string \<Rightarrow> nat \<Rightarrow> int io" where
  "sock_connect_ex env host prt = perform (SockConnectEx host prt) (\<lambda>h. connect_ex_reply env h host prt)"

definition sock_op :: "env \<Rightarrow> action \<Rightarrow> unit io" where
  "sock_op env a = perform a (\<lambda>h. case socket_error env h a of None \<Rightarrow> Inr () | Some e \<Rightarrow> Inl e)"

definition sock_connect :: "env \<Rightarrow> string \<Rightarrow> nat \<Rightarrow> unit io" where
  "sock_connect env host prt = sock_op env (SockConnect host prt)"

definition sock_send :: "env \<Rightarrow> string \<Rightarrow> unit io" where
  "sock_send env payload = sock_op env (SockSend payload)"

definition sock_sendto :: "env \<Rightarrow> string \<Rightarrow> string \<Rightarrow> nat \<Rightarrow> unit io" where
  "sock_sendto env payload host prt = sock_op env (SockSendTo payload host prt)"

definition sock_recv :: "env \<Rightarrow> nat \<Rightarrow> unit io" where
  "sock_recv env bufsize = sock_op env (SockRecv bufsize)"

text \<open>
  \<open>with socket.socket(...) as s: body\<close>: the socket is closed when the block is left,
  by a \<open>return\<close>, by an exception or at its end.
\<close>

definition with_socket :: "sock_type \<Rightarrow> 'a io \<Rightarrow> 'a io" where
  "with_socket ty body =
     bind_io (sock_open ty) (\<lambda>_ h. case body h of (r, h') \<Rightarrow> (r, h' @ [SockClose]))"

definition sleep :: "nat \<Rightarrow> unit io" where
  "sleep ms = effect (Sleep ms)"

text \<open>
  The loop every script uses to try candidates in turn:
  \<^verbatim>\<open>
  for x in xs:
      try:
          ...                      # attempt x
          if <success>: return True
      except:
          continue
  return False
  \<close>
  \<open>attempt x\<close> is the body of the \<open>try\<close>, returning whether it reached the
  \<open>return True\<close>.
\<close>

fun try_each :: "('a \<Rightarrow> bool io) \<Rightarrow> 'a list \<Rightarrow> bool io" where
  "try_each attempt [] = return_io False"
| "try_each attempt (x # xs) =
     bind_io (try_except (attempt x) (return_io False))
       (\<lambda>ok. if ok then return_io True else try_each attempt xs)"

section \<open>Python values: truthiness, iteration, \<open>dict.get\<close>\<close>

fun py_truthy :: "pyval \<Rightarrow> bool" where
  "py_truthy PNone = False"
| "py_truthy (PBool b) = b"
| "py_truthy (PInt n) = (n \<noteq> 0)"
| "py_truthy (PFloat m e) = (m \<noteq> 0)"
| "py_truthy (PStr s) = (s \<noteq> [])"
| "py_truthy (PList xs) = (xs \<noteq> [])"
| "py_truthy (PDict items) = (items \<noteq> [])"

text \<open>
  \<open>for zone in zones\<close>: a list gives its elements, a dictionary its keys, a string
  its characters; anything else is not iterable.
\<close>

fun py_iter :: "pyval \<Rightarrow> exn + pyval list" where
  "py_iter (PList xs) = Inr xs"
| "py_iter (PDict items) = Inr (map (\<lambda>kv. PStr (fst kv)) items)"
| "py_iter (PStr s) = Inr (map (\<lambda>c. PStr [c]) s)"
| "py_iter PNone = Inl (Exn ''TypeError'')"
| "py_iter (PBool b) = Inl (Exn ''TypeError'')"
| "py_iter (PInt n) = Inl (Exn ''TypeError'')"
| "py_iter (PFloat m e) = Inl (Exn ''TypeError'')"

text \<open>\<open>zone.get(key, dflt)\<close>: only a dictionary has the method.\<close>

fun dict_get :: "pyval \<Rightarrow> string \<Rightarrow> pyval \<Rightarrow> exn + pyval" where
  "dict_get (PDict items) key dflt =
     Inr (case map_of items key of Some v \<Rightarrow> v | None \<Rightarrow> dflt)"
| "dict_get PNone key dflt = Inl (Exn ''AttributeError'')"
| "dict_get (PBool b) key dflt = Inl (Exn ''AttributeError'')"
| "dict_get (PInt n) key dflt = Inl (Exn ''AttributeError'')"
| "dict_get (PFloat m e) key dflt = Inl (Exn ''AttributeError'')"
| "dict_get (PStr s) key dflt = Inl (Exn ''AttributeError'')"
| "dict_get (PList xs) key dflt = Inl (Exn ''AttributeError'')"

section \<open>dev001.py: \<open>BMSLightController\<close>\<close>

text \<open>
  The object holds the controller's address; every request of the class goes to
  \<open>base_url = f"http://{controller_ip}:{port}"\<close> through \<open>self.session\<close>. Method
  names drop the source's leading underscore.
\<close>

record bms_controller =
  controller_ip :: string
  port :: nat

definition session_get :: "env \<Rightarrow> bms_controller \<Rightarrow> path \<Rightarrow> response io" where
  "session_get env self endpoint = http_request env GET (controller_ip self) (port self) endpoint"

definition session_post :: "env \<Rightarrow> bms_controller \<Rightarrow> path \<Rightarrow> response io" where
  "session_post env self endpoint = http_request env POST (controller_ip self) (port self) endpoint"

subsection \<open>\<open>_try_bacnet\<close>\<close>

text \<open>
  \<^verbatim>\<open>
  try:
      with socket.socket(socket.AF_INET, socket.SOCK_STREAM) as s:
          s.settimeout(2)
          result = s.connect_ex((self.controller_ip, 47808))
          if result == 0:
              return "BACnet"
  except:
      pass
  return None
  \<close>
\<close>

definition try_bacnet :: "env \<Rightarrow> bms_controller \<Rightarrow> string option io" where
  "try_bacnet env self =
     try_except
       (with_socket SOCK_STREAM
          (bind_io (sock_settimeout 2) (\<lambda>_.
           bind_io (sock_connect_ex env (controller_ip self) 47808) (\<lambda>result.
           if result = 0 then return_io (Some ''BACnet'') else return_io None))))
       (return_io None)"

subsection \<open>\<open>get_lighting_zones\<close>\<close>

text \<open>
  \<^verbatim>\<open>
  try:
      endpoints = ['/api/lighting/zones', '/bms/lighting', '/zones', '/api/zones', '/lighting']
      for endpoint in endpoints:
          try:
              response = self.session.get(f"{self.base_url}{endpoint}", timeout=10, verify=False)
              if response.status_code == 200:
                  return response.json()
          except:
              continue
      return []
  except Exception as e:
      return []
  \<close>
  The body of the inner \<open>try\<close> yields \<open>Some v\<close> where it returns \<open>v\<close> and
  \<open>None\<close> where the loop goes on.
\<close>

definition lighting_zone_endpoints :: "path list" where
  "lighting_zone_endpoints =
     [Path ''/api/lighting/zones'', Path ''/bms/lighting'', Path ''/zones'',
      Path ''/api/zones'', Path ''/lighting'']"

fun get_lighting_zones_loop :: "env \<Rightarrow> bms_controller \<Rightarrow> path list \<Rightarrow> pyval io" where
  "get_lighting_zones_loop env self [] = return_io (PList [])"
| "get_lighting_zones_loop env self (endpoint # endpoints) =
     bind_io
       (try_except
          (bind_io (session_get env self endpoint) (\<lambda>response.
             if status_code response = 200
             then bind_io (response_json response) (\<lambda>v. return_io (Some v))
             else return_io None))
          (return_io None))
       (\<lambda>returned. case returned of
          Some v \<Rightarrow> return_io v
        | None \<Rightarrow> get_lighting_zones_loop env self endpoints)"

definition get_lighting_zones :: "env \<Rightarrow> bms_controller \<Rightarrow> pyval io" where
  "get_lighting_zones env self =
     try_except_Exception (get_lighting_zones_loop env self lighting_zone_endpoints)
       (\<lambda>e. return_io (PList []))"

subsection \<open>The four bulk strategies\<close>

text \<open>
  \<open>_turn_off_via_rest\<close>: five endpoints, each with its verb; success is a status in
  \<open>[200, 201, 202]\<close>.
\<close>

definition rest_off_endpoints :: "(path \<times> verb) list" where
  "rest_off_endpoints =
     [(Path ''/api/lighting/all/off'', POST),
      (Path ''/bms/lighting/off'', POST),
      (Path ''/api/control/lighting/off'', POST),
      (Path ''/lighting/off'', POST),
      (Path ''/cmd/lightsoff'', GET)]"

definition turn_off_via_rest :: "env \<Rightarrow> bms_controller \<Rightarrow> bool io" where
  "turn_off_via_rest env self =
     try_each
       (\<lambda>(endpoint, method).
          bind_io (if method = POST then session_post env self endpoint
                   else session_get env self endpoint)
            (\<lambda>response. return_io (status_code response \<in> set [200, 201, 202])))
       rest_off_endpoints"

text \<open>
  \<open>_turn_off_via_soap\<close>:
  \<^verbatim>\<open>
  try:
      response = self.session.post(f"{self.base_url}/WebService.asmx", data=soap_body, ...)
      return response.status_code == 200
  except:
      return False
  \<close>
\<close>

definition turn_off_via_soap :: "env \<Rightarrow> bms_controller \<Rightarrow> bool io" where
  "turn_off_via_soap env self =
     try_except
       (bind_io (session_post env self (Path ''/WebService.asmx''))
          (\<lambda>response. return_io (status_code response = 200)))
       (return_io False)"

text \<open>\<open>_turn_off_via_simple_http\<close>: five GET commands; success is status 200.\<close>

definition simple_http_commands :: "path list" where
  "simple_http_commands =
     [Path ''/lightoff.cgi?all=1'', Path ''/control.cgi?cmd=lightsoff'',
      Path ''/cmd.cgi?light=off'', Path ''/api.cgi?action=lightoff'',
      Path ''/switch.cgi?all=off'']"

definition turn_off_via_simple_http :: "env \<Rightarrow> bms_controller \<Rightarrow> bool io" where
  "turn_off_via_simple_http env self =
     try_each
       (\<lambda>command. bind_io (session_get env self command)
          (\<lambda>response. return_io (status_code response = 200)))
       simple_http_commands"

text \<open>\<open>_turn_off_via_bacnet_simulation\<close>: one POST, as \<open>_turn_off_via_soap\<close>.\<close>

definition turn_off_via_bacnet_simulation :: "env \<Rightarrow> bms_controller \<Rightarrow> bool io" where
  "turn_off_via_bacnet_simulation env self =
     try_except
       (bind_io (session_post env self (Path ''/bacnet/command''))
          (\<lambda>response. return_io (status_code response = 200)))
       (return_io False)"

subsection \<open>\<open>turn_off_zone\<close> and \<open>_turn_off_zone_by_zone\<close>\<close>

text \<open>
  \<^verbatim>\<open>
  def turn_off_zone(self, zone_id):
      endpoints = [f'/api/lighting/zones/{zone_id}/off', f'/bms/lighting/zone/{zone_id}/off',
                   f'/api/control/zone/{zone_id}', f'/zone/{zone_id}/off']
      for endpoint in endpoints:
          try:
              response = self.session.post(f"{self.base_url}{endpoint}", json={"state": "off"}, ...)
              if response.status_code in [200, 201, 202]:
                  return True
          except:
              continue
      return False
  \<close>
\<close>

definition zone_off_endpoints :: "pyval \<Rightarrow> path list" where
  "zone_off_endpoints zone_id =
     [ZonePath ''/api/lighting/zones/'' zone_id ''/off'',
      ZonePath ''/bms/lighting/zone/'' zone_id ''/off'',
      ZonePath ''/api/control/zone/'' zone_id '''',
      ZonePath ''/zone/'' zone_id ''/off'']"

definition turn_off_zone :: "env \<Rightarrow> bms_controller \<Rightarrow> pyval \<Rightarrow> bool io" where
  "turn_off_zone env self zone_id =
     try_each
       (\<lambda>endpoint. bind_io (session_post env self endpoint)
          (\<lambda>response. return_io (status_code response \<in> set [200, 201, 202])))
       (zone_off_endpoints zone_id)"

text \<open>
  \<open>zone.get('id', zone.get('zoneId', zone.get('name')))\<close>: the arguments are
  evaluated first, innermost first.
\<close>

definition zone_id_of :: "pyval \<Rightarrow> exn + pyval" where
  "zone_id_of zone =
     (case dict_get zone ''name'' PNone of
        Inl e \<Rightarrow> Inl e
      | Inr name \<Rightarrow>
          (case dict_get zone ''zoneId'' name of
             Inl e \<Rightarrow> Inl e
           | Inr zoneId \<Rightarrow> dict_get zone ''id'' zoneId))"

text \<open>
  \<^verbatim>\<open>
  try:
      zones = self.get_lighting_zones()
      if not zones:
          return False
      success_count = 0
      for zone in zones:
          zone_id = zone.get('id', zone.get('zoneId', zone.get('name')))
          if self.turn_off_zone(zone_id):
              success_count += 1
              logger.info(...)
              time.sleep(0.5)  # delay between commands
      return success_count > 0
  except Exception as e:
      return False
  \<close>
  The loop is \<open>turn_off_zones_loop\<close>, with \<open>success_count\<close> as its accumulator
  and result. The comment on the \<open>sleep\<close> is the source's, translated.
\<close>

fun turn_off_zones_loop :: "env \<Rightarrow> bms_controller \<Rightarrow> pyval list \<Rightarrow> nat \<Rightarrow> nat io" where
  "turn_off_zones_loop env self [] success_count = return_io success_count"
| "turn_off_zones_loop env self (zone # zones) success_count =
     bind_io (lift_io (zone_id_of zone)) (\<lambda>zone_id.
     bind_io (turn_off_zone env self zone_id) (\<lambda>ok.
       if ok
       then bind_io (sleep 500) (\<lambda>_. turn_off_zones_loop env self zones (success_count + 1))
       else turn_off_zones_loop env self zones success_count))"

definition turn_off_zone_by_zone :: "env \<Rightarrow> bms_controller \<Rightarrow> bool io" where
  "turn_off_zone_by_zone env self =
     try_except_Exception
       (bind_io (get_lighting_zones env self) (\<lambda>zones.
          if \<not> py_truthy zones then return_io False
          else bind_io (lift_io (py_iter zones)) (\<lambda>zone_list.
               bind_io (turn_off_zones_loop env self zone_list 0) (\<lambda>success_count.
               return_io (success_count > 0)))))
       (\<lambda>e. return_io False)"

subsection \<open>\<open>turn_off_all_lights\<close>\<close>

text \<open>
  \<^verbatim>\<open>
  methods = [self._turn_off_via_rest, self._turn_off_via_soap, self._turn_off_via_simple_http,
             self._turn_off_via_bacnet_simulation, self._turn_off_zone_by_zone]
  for method in methods:
      try:
          if method():
              return True
      except Exception as e:
          continue
  return False
  \<close>
\<close>

fun turn_off_all_lights_loop :: "bool io list \<Rightarrow> bool io" where
  "turn_off_all_lights_loop [] = return_io False"
| "turn_off_all_lights_loop (method # methods) =
     bind_io (try_except_Exception method (\<lambda>e. return_io False))
       (\<lambda>ok. if ok then return_io True else turn_off_all_lights_loop methods)"

definition bms_methods :: "env \<Rightarrow> bms_controller \<Rightarrow> bool io list" where
  "bms_methods env self =
     [turn_off_via_rest env self, turn_off_via_soap env self,
      turn_off_via_simple_http env self, turn_off_via_bacnet_simulation env self,
      turn_off_zone_by_zone env self]"

definition turn_off_all_lights :: "env \<Rightarrow> bms_controller \<Rightarrow> bool io" where
  "turn_off_all_lights env self = turn_off_all_lights_loop (bms_methods env self)"

section \<open>dev003.py: \<open>BuildingLightController\<close>\<close>

text \<open>
  The object holds the protocol catalog, a dictionary \<open>name \<mapsto> {port, protocol}\<close>
  kept as its items in insertion order, and the list of target addresses.
  \<open>init_building_controller\<close> is what \<open>__init__\<close> builds.
\<close>

record building_controller =
  building_protocols :: "(string \<times> nat \<times> string) list"
  common_controllers :: "string list"

definition init_building_controller :: building_controller where
  "init_building_controller =
     \<lparr>building_protocols =
        [(''knx'', 3671, ''UDP''), (''modbus'', 502, ''TCP''), (''bacnet'', 47808, ''UDP''),
         (''dali'', 50000, ''TCP''), (''opcua'', 4840, ''TCP''), (''rest_api'', 80, ''HTTP''),
         (''mqtt'', 1883, ''TCP'')],
      common_controllers =
        [''192.168.1.100'', ''192.168.1.101'', ''192.168.1.200'', ''192.168.1.201'',
         ''192.168.1.10'', ''192.168.1.50'', ''plc.local'', ''building-ctrl.local'']\<rparr>"

subsection \<open>\<open>check_controller\<close>\<close>

text \<open>
  \<^verbatim>\<open>
  try:
      if protocol in ['TCP', 'HTTP']:
          sock = socket.socket(socket.AF_INET, socket.SOCK_STREAM)
          sock.settimeout(2)
          result = sock.connect_ex((ip, port))
          sock.close()
          return result == 0
      elif protocol == 'UDP':
          sock = socket.socket(socket.AF_INET, socket.SOCK_DGRAM)
          sock.settimeout(2)
          sock.sendto(b'\x00', (ip, port))
          sock.close()
          return True
  except:
      return False
  return False
  \<close>
\<close>

definition check_controller :: "env \<Rightarrow> string \<Rightarrow> nat \<Rightarrow> string \<Rightarrow> bool io" where
  "check_controller env ip prt protocol =
     try_except
       (if protocol \<in> set [''TCP'', ''HTTP'']
        then bind_io (sock_open SOCK_STREAM) (\<lambda>_.
             bind_io (sock_settimeout 2) (\<lambda>_.
             bind_io (sock_connect_ex env ip prt) (\<lambda>result.
             bind_io sock_close (\<lambda>_.
             return_io (result = 0)))))
        else if protocol = ''UDP''
        then bind_io (sock_open SOCK_DGRAM) (\<lambda>_.
             bind_io (sock_settimeout 2) (\<lambda>_.
             bind_io (sock_sendto env ''00'' ip prt) (\<lambda>_.
             bind_io sock_close (\<lambda>_.
             return_io True))))
        else return_io False)
       (return_io False)"

subsection \<open>\<open>discover_building_controllers\<close>\<close>

text \<open>
  \<^verbatim>\<open>
  found_controllers = []
  for controller_ip in self.common_controllers:
      for protocol_name, protocol_info in self.building_protocols.items():
          if self.check_controller(controller_ip, protocol_info['port'], protocol_info['protocol']):
              found_controllers.append({'ip': controller_ip, 'port': protocol_info['port'],
                                        'protocol': protocol_name, 'type': protocol_info['protocol']})
  return found_controllers
  \<close>
  An entry of the result keeps the four values of the appended dictionary, the field
  \<open>found_k\<close> for the key \<open>'k'\<close>. The variable \<open>controller_ip\<close> is written
  \<open>target\<close> from here on (the name is a field of \<open>bms_controller\<close>).
\<close>

record found_controller =
  found_ip :: string
  found_port :: nat
  found_protocol :: string
  found_type :: string

fun discover_protocols_loop ::
  "env \<Rightarrow> string \<Rightarrow> (string \<times> nat \<times> string) list \<Rightarrow> found_controller list
     \<Rightarrow> found_controller list io" where
  "discover_protocols_loop env target [] found_controllers = return_io found_controllers"
| "discover_protocols_loop env target ((protocol_name, prt, proto) # rest) found_controllers =
     bind_io (check_controller env target prt proto) (\<lambda>ok.
       discover_protocols_loop env target rest
         (if ok
          then found_controllers @
                 [\<lparr>found_ip = target, found_port = prt, found_protocol = protocol_name,
                   found_type = proto\<rparr>]
          else found_controllers))"

fun discover_controllers_loop ::
  "env \<Rightarrow> string list \<Rightarrow> (string \<times> nat \<times> string) list \<Rightarrow> found_controller list
     \<Rightarrow> found_controller list io" where
  "discover_controllers_loop env [] catalog found_controllers = return_io found_controllers"
| "discover_controllers_loop env (target # ips) catalog found_controllers =
     bind_io (discover_protocols_loop env target catalog found_controllers)
       (\<lambda>found'. discover_controllers_loop env ips catalog found')"

definition discover_building_controllers ::
  "env \<Rightarrow> building_controller \<Rightarrow> found_controller list io" where
  "discover_building_controllers env self =
     discover_controllers_loop env (common_controllers self) (building_protocols self) []"

subsection \<open>The protocol strategies\<close>

text \<open>
  \<open>turn_off_lights_via_rest\<close>: five plain POSTs (success: status in
  \<open>[200, 201, 202]\<close>), then two POSTs with credentials (success: status in
  \<open>[200, 201]\<close>), all to port 80 of the controller; every request in a bare
  \<open>try\<close>, the whole in \<open>try ... except Exception\<close>, and \<open>return False\<close> last.
\<close>

definition rest_endpoints :: "path list" where
  "rest_endpoints =
     [Path ''/api/lighting/all/off'', Path ''/api/lighting/zone/all/off'',
      Path ''/api/building/lighting/off'', Path ''/api/system/lighting/off'',
      Path ''/rest/lighting/all/off'']"

definition rest_auth_endpoints :: "path list" where
  "rest_auth_endpoints = [Path ''/api/control/lighting'', Path ''/api/command'']"

definition turn_off_lights_via_rest :: "env \<Rightarrow> string \<Rightarrow> bool io" where
  "turn_off_lights_via_rest env target =
     try_except_Exception
       (bind_io
          (try_each
             (\<lambda>endpoint. bind_io (http_request env POST target 80 endpoint)
                (\<lambda>response. return_io (status_code response \<in> set [200, 201, 202])))
             rest_endpoints)
          (\<lambda>ok. if ok then return_io True
             else bind_io
               (try_each
                  (\<lambda>endpoint. bind_io (http_request env POST target 80 endpoint)
                     (\<lambda>response. return_io (status_code response \<in> set [200, 201])))
                  rest_auth_endpoints)
               (\<lambda>ok'. if ok' then return_io True else return_io False)))
       (\<lambda>e. return_io False)"

text \<open>
  \<open>turn_off_lights_via_modbus\<close>:
  \<^verbatim>\<open>
  try:
      modbus_message = bytes.fromhex('00010000000601050000FF00')
      sock = socket.socket(socket.AF_INET, socket.SOCK_STREAM)
      sock.settimeout(5)
      sock.connect((controller_ip, 502))
      sock.send(modbus_message)
      response = sock.recv(1024)
      sock.close()
      return True
  except Exception as e:
      return False
  \<close>
  \<open>_via_knx\<close> and \<open>_via_bacnet\<close> send one datagram, \<open>_via_mqtt\<close> connects and
  sends without reading; all four have the same handler.
\<close>

definition turn_off_lights_via_modbus :: "env \<Rightarrow> string \<Rightarrow> bool io" where
  "turn_off_lights_via_modbus env target =
     try_except_Exception
       (bind_io (sock_open SOCK_STREAM) (\<lambda>_.
        bind_io (sock_settimeout 5) (\<lambda>_.
        bind_io (sock_connect env target 502) (\<lambda>_.
        bind_io (sock_send env ''00010000000601050000FF00'') (\<lambda>_.
        bind_io (sock_recv env 1024) (\<lambda>_.
        bind_io sock_close (\<lambda>_.
        return_io True)))))))
       (\<lambda>e. return_io False)"

definition turn_off_lights_via_knx :: "env \<Rightarrow> string \<Rightarrow> bool io" where
  "turn_off_lights_via_knx env target =
     try_except_Exception
       (bind_io (sock_open SOCK_DGRAM) (\<lambda>_.
        bind_io (sock_settimeout 5) (\<lambda>_.
        bind_io (sock_sendto env ''0610020500140801c0a8016404d200000000000000000000''
                   target 3671) (\<lambda>_.
        bind_io sock_close (\<lambda>_.
        return_io True)))))
       (\<lambda>e. return_io False)"

definition turn_off_lights_via_bacnet :: "env \<Rightarrow> string \<Rightarrow> bool io" where
  "turn_off_lights_via_bacnet env target =
     try_except_Exception
       (bind_io (sock_open SOCK_DGRAM) (\<lambda>_.
        bind_io (sock_settimeout 5) (\<lambda>_.
        bind_io (sock_sendto env ''810b000c0120ffff00ff10080c023e0000003f''
                   target 47808) (\<lambda>_.
        bind_io sock_close (\<lambda>_.
        return_io True)))))
       (\<lambda>e. return_io False)"

definition turn_off_lights_via_mqtt :: "env \<Rightarrow> string \<Rightarrow> bool io" where
  "turn_off_lights_via_mqtt env target =
     try_except_Exception
       (bind_io (sock_open SOCK_STREAM) (\<lambda>_.
        bind_io (sock_settimeout 5) (\<lambda>_.
        bind_io (sock_connect env target 1883) (\<lambda>_.
        bind_io (sock_send env
                   ''102600044d5154540402003c001a6275696c64696e672f6c69676874696e672f616c6c2f6f6666'')
          (\<lambda>_.
        bind_io sock_close (\<lambda>_.
        return_io True))))))
       (\<lambda>e. return_io False)"

subsection \<open>\<open>emergency_light_off\<close>\<close>

text \<open>
  \<^verbatim>\<open>
  if protocol == 'rest_api':
      return self.turn_off_lights_via_rest(controller_ip)
  elif protocol == 'modbus':
      return self.turn_off_lights_via_modbus(controller_ip)
  elif protocol == 'knx':
      return self.turn_off_lights_via_knx(controller_ip)
  elif protocol == 'bacnet':
      return self.turn_off_lights_via_bacnet(controller_ip)
  elif protocol == 'mqtt':
      return self.turn_off_lights_via_mqtt(controller_ip)
  else:
      methods = [self.turn_off_lights_via_rest, self.turn_off_lights_via_modbus,
                 self.turn_off_lights_via_knx]
      for method in methods:
          if method(controller_ip):
              return True
  return False
  \<close>
  The loop of the last branch has no handler of its own.
\<close>

fun emergency_methods_loop :: "bool io list \<Rightarrow> bool io" where
  "emergency_methods_loop [] = return_io False"
| "emergency_methods_loop (method # methods) =
     bind_io method (\<lambda>ok. if ok then return_io True else emergency_methods_loop methods)"

definition emergency_light_off :: "env \<Rightarrow> string \<Rightarrow> string \<Rightarrow> bool io" where
  "emergency_light_off env target proto =
     (if proto = ''rest_api'' then turn_off_lights_via_rest env target
      else if proto = ''modbus'' then turn_off_lights_via_modbus env target
      else if proto = ''knx'' then turn_off_lights_via_knx env target
      else if proto = ''bacnet'' then turn_off_lights_via_bacnet env target
      else if proto = ''mqtt'' then turn_off_lights_via_mqtt env target
      else emergency_methods_loop
             [turn_off_lights_via_rest env target,
              turn_off_lights_via_modbus env target,
              turn_off_lights_via_knx env target])"

section \<open>Vocabulary of the properties\<close>

text \<open>A program that returns a value from every trace, whatever the environment did.\<close>

definition returns :: "'a io \<Rightarrow> bool" where
  "returns p \<longleftrightarrow> (\<forall>h. \<exists>x h'. p h = (Inr x, h'))"

text \<open>A program that lets no \<open>BaseExn\<close> out: what it raises, \<open>except Exception\<close> catches.\<close>

definition raises_only_Exception :: "'a io \<Rightarrow> bool" where
  "raises_only_Exception p \<longleftrightarrow> (\<forall>h n. fst (p h) \<noteq> Inl (BaseExn n))"

text \<open>
  The trace after running programs one after another, each from the trace the one
  before it left: the state in which a dispatcher invokes its \<open>i\<close>-th strategy is
  \<open>run_seq (take i methods) h\<close>.
\<close>

fun run_seq :: "'a io list \<Rightarrow> trace \<Rightarrow> trace" where
  "run_seq [] h = h"
| "run_seq (p # ps) h = run_seq ps (snd (p h))"

text \<open>
  A strategy failed, in the eyes of \<open>turn_off_all_lights\<close>: it returned
  \<open>False\<close>, or raised what \<open>except Exception\<close> catches.
\<close>

fun failed :: "exn + bool \<Rightarrow> bool" where
  "failed (Inr ok) = (\<not> ok)"
| "failed (Inl (Exn n)) = True"
| "failed (Inl (BaseExn n)) = False"

text \<open>
  A stub whose responses do not change: the answer to an action does not depend on what
  happened before.
\<close>

definition stable :: "env \<Rightarrow> bool" where
  "stable env \<longleftrightarrow>
     (\<forall>h. http_reply env h = http_reply env [])
     \<and> (\<forall>h. connect_ex_reply env h = connect_ex_reply env [])
     \<and> (\<forall>h. socket_error env h = socket_error env [])"

text \<open>
  A program whose value and added trace do not depend on the trace it starts from.
\<close>

definition history_independent :: "'a io \<Rightarrow> bool" where
  "history_independent p \<longleftrightarrow> (\<forall>h. p h = (fst (p []), h @ snd (p [])))"

text \<open>
  What a zone-listing endpoint yields when asked after trace \<open>h\<close>: the parsed body of
  a response with status 200, nothing on any other status, on an unparseable body or on
  an exception.
\<close>

definition endpoint_yield :: "env \<Rightarrow> bms_controller \<Rightarrow> path \<Rightarrow> trace \<Rightarrow> pyval option" where
  "endpoint_yield env self endpoint h =
     (case http_reply env h GET (controller_ip self) (port self) endpoint of
        Inl e \<Rightarrow> None
      | Inr response \<Rightarrow> if status_code response = 200 then json_body response else None)"

definition zone_request :: "bms_controller \<Rightarrow> path \<Rightarrow> action" where
  "zone_request self endpoint = Http GET (controller_ip self) (port self) endpoint"

text \<open>
  Modelled on the spec's words, for comparison with \<open>get_lighting_zones\<close>:
  \<open>enumerateZones\<close> "tries an ordered list of list-zones endpoints; returns the first
  non-empty parseable list", and the empty list when there is none.
\<close>

fun nonempty_list :: "pyval \<Rightarrow> bool" where
  "nonempty_list (PList (x # xs)) = True"
| "nonempty_list v = False"

fun enumerate_zones_spec :: "env \<Rightarrow> bms_controller \<Rightarrow> path list \<Rightarrow> trace \<Rightarrow> pyval" where
  "enumerate_zones_spec env self [] h = PList []"
| "enumerate_zones_spec env self (endpoint # endpoints) h =
     (case endpoint_yield env self endpoint h of
        Some v \<Rightarrow>
          if nonempty_list v then v
          else enumerate_zones_spec env self endpoints (h @ [zone_request self endpoint])
      | None \<Rightarrow> enumerate_zones_spec env self endpoints (h @ [zone_request self endpoint]))"

text \<open>
  The outcome of every zone's off-command in a run of the zone loop, in order
  (the spec's \<open>perZoneResults\<close>): each \<open>turn_off_zone\<close> starts from the trace the
  zone before it left, the pause after a success included.
\<close>

fun zone_results :: "env \<Rightarrow> bms_controller \<Rightarrow> pyval list \<Rightarrow> trace \<Rightarrow> bool list" where
  "zone_results env self [] h = []"
| "zone_results env self (zone # zones) h =
     (case zone_id_of zone of
        Inl e \<Rightarrow> []
      | Inr zone_id \<Rightarrow>
          (let r = turn_off_zone env self zone_id h;
               ok = (fst r = Inr True)
           in ok # zone_results env self zones (if ok then snd r @ [Sleep 500] else snd r)))"

fun is_dict :: "pyval \<Rightarrow> bool" where
  "is_dict (PDict items) = True"
| "is_dict v = False"

text \<open>The entries of a discovery, as the cross product lists them.\<close>

definition probe_ok :: "env \<Rightarrow> string \<Rightarrow> nat \<Rightarrow> string \<Rightarrow> bool" where
  "probe_ok env target prt proto \<longleftrightarrow> fst (check_controller env target prt proto []) = Inr True"

definition found_entry :: "string \<Rightarrow> string \<times> nat \<times> string \<Rightarrow> found_controller" where
  "found_entry target entry =
     \<lparr>found_ip = target, found_port = fst (snd entry), found_protocol = fst entry,
      found_type = snd (snd entry)\<rparr>"

definition reachable_pairs ::
  "env \<Rightarrow> string list \<Rightarrow> (string \<times> nat \<times> string) list \<Rightarrow> found_controller list" where
  "reachable_pairs env targets catalog =
     concat (map (\<lambda>target.
       map (found_entry target)
         (filter (\<lambda>entry. probe_ok env target (fst (snd entry)) (snd (snd entry))) catalog))
       targets)"

text \<open>
  The strategy list \<open>emergency_light_off\<close> has for a protocol name: the protocol's own
  strategy, or the three it tries for a name it does not know.
\<close>

definition emergency_methods :: "env \<Rightarrow> string \<Rightarrow> string \<Rightarrow> bool io list" where
  "emergency_methods env target proto =
     (if proto = ''rest_api'' then [turn_off_lights_via_rest env target]
      else if proto = ''modbus'' then [turn_off_lights_via_modbus env target]
      else if proto = ''knx'' then [turn_off_lights_via_knx env target]
      else if proto = ''bacnet'' then [turn_off_lights_via_bacnet env target]
      else if proto = ''mqtt'' then [turn_off_lights_via_mqtt env target]
      else [turn_off_lights_via_rest env target, turn_off_lights_via_modbus env target,
            turn_off_lights_via_knx env target])"

definition success_count_of :: "bool list \<Rightarrow> nat" where
  "success_count_of results = length (filter (\<lambda>ok. ok) results)"

definition failure_count_of :: "bool list \<Rightarrow> nat" where
  "failure_count_of results = length (filter (\<lambda>ok. \<not> ok) results)"

text \<open>
  Strategy \<open>k\<close> of an ordered list is the first to report success when the list is
  run in order from trace \<open>h\<close>: every strategy before it, invoked in its turn, fails,
  and strategy \<open>k\<close>, invoked after them, returns \<open>True\<close>. What counts as a failure
  is the dispatcher's business: \<open>failed\<close> for \<open>turn_off_all_lights\<close>, whose loop
  catches \<open>Exception\<close>; a returned \<open>False\<close> for \<open>emergency_light_off\<close>, whose
  loop has no handler.
\<close>

definition first_success_at :: "(exn + bool \<Rightarrow> bool) \<Rightarrow> bool io list \<Rightarrow> nat \<Rightarrow> trace \<Rightarrow> bool" where
  "first_success_at fails methods k h \<longleftrightarrow>
     k < length methods
     \<and> (\<forall>i<k. fails (fst ((methods ! i) (run_seq (take i methods) h))))
     \<and> fst ((methods ! k) (run_seq (take k methods) h)) = Inr True"

definition returned_False :: "exn + bool \<Rightarrow> bool" where
  "returned_False r \<longleftrightarrow> r = Inr False"

text \<open>
  An environment whose failures are all instances of \<open>Exception\<close>, as network errors
  and timeouts are: no request is cut short by a \<open>KeyboardInterrupt\<close> or a
  \<open>SystemExit\<close>.
\<close>

definition raises_Exceptions_only :: "env \<Rightarrow> bool" where
  "raises_Exceptions_only env \<longleftrightarrow>
     (\<forall>h v host prt p n. http_reply env h v host prt p \<noteq> Inl (BaseExn n))
     \<and> (\<forall>h host prt n. connect_ex_reply env h host prt \<noteq> Inl (BaseExn n))
     \<and> (\<forall>h a n. socket_error env h a \<noteq> Some (BaseExn n))"

text \<open>
  The probes of a discovery run and what each reported, in the order the nested loops
  make them: every \<open>check_controller\<close> starts from the trace the probe before it
  left. An entry is the probed pair (target, catalog entry) and whether the probe
  returned \<open>True\<close>; the second component is the trace after the last probe.
\<close>

fun probe_protocols ::
  "env \<Rightarrow> string \<Rightarrow> (string \<times> nat \<times> string) list \<Rightarrow> trace
     \<Rightarrow> ((string \<times> string \<times> nat \<times> string) \<times> bool) list \<times> trace" where
  "probe_protocols env target [] h = ([], h)"
| "probe_protocols env target (entry # rest) h =
     (let r = check_controller env target (fst (snd entry)) (snd (snd entry)) h;
          tail = probe_protocols env target rest (snd r)
      in (((target, entry), fst r = Inr True) # fst tail, snd tail))"

fun probe_targets ::
  "env \<Rightarrow> string list \<Rightarrow> (string \<times> nat \<times> string) list \<Rightarrow> trace
     \<Rightarrow> ((string \<times> string \<times> nat \<times> string) \<times> bool) list \<times> trace" where
  "probe_targets env [] catalog h = ([], h)"
| "probe_targets env (target # targets) catalog h =
     (let first = probe_protocols env target catalog h;
          tail = probe_targets env targets catalog (snd first)
      in (fst first @ fst tail, snd tail))"

definition probe_log ::
  "env \<Rightarrow> string list \<Rightarrow> (string \<times> nat \<times> string) list \<Rightarrow> trace
     \<Rightarrow> ((string \<times> string \<times> nat \<times> string) \<times> bool) list" where
  "probe_log env targets catalog h = fst (probe_targets env targets catalog h)"

text \<open>The entries for the probes of a log that reported reachable, in the log's order.\<close>

definition found_of_log ::
  "((string \<times> string \<times> nat \<times> string) \<times> bool) list \<Rightarrow> found_controller list" where
  "found_of_log log =
     map (\<lambda>probe. found_entry (fst (fst probe)) (snd (fst probe))) (filter snd log)"

section \<open>Stub environments\<close>

text \<open>
  A host on which nothing listens: a TCP connection is refused (\<open>connect_ex\<close> returns
  \<open>ECONNREFUSED\<close>, 111; \<open>connect\<close> raises), an HTTP request raises, and a datagram
  leaves without the system reporting anything.
\<close>

definition nothing_listens :: env where
  "nothing_listens =
     \<lparr>http_reply = (\<lambda>h v host prt p. Inl (Exn ''ConnectionError'')),
      connect_ex_reply = (\<lambda>h host prt. Inr 111),
      socket_error = (\<lambda>h a. case a of
          SockSendTo payload host prt \<Rightarrow> None
        | _ \<Rightarrow> Some (Exn ''ConnectionRefusedError''))\<rparr>"

text \<open>A network on which every operation ends in a keyboard interrupt or a timeout.\<close>

definition all_interrupted :: env where
  "all_interrupted =
     \<lparr>http_reply = (\<lambda>h v host prt p. Inl (BaseExn ''KeyboardInterrupt'')),
      connect_ex_reply = (\<lambda>h host prt. Inl (Exn ''TimeoutError'')),
      socket_error = (\<lambda>h a. Some (BaseExn ''KeyboardInterrupt''))\<rparr>"

definition bms0 :: bms_controller where
  "bms0 = \<lparr>controller_ip = ''192.168.1.100'', port = 80\<rparr>"

text \<open>
  A controller whose first zone-listing endpoint answers 200 with an empty JSON list,
  and every other endpoint 200 with a list of one zone.
\<close>

definition first_listing_empty :: env where
  "first_listing_empty =
     \<lparr>http_reply = (\<lambda>h v host prt p.
        if p = Path ''/api/lighting/zones''
        then Inr \<lparr>status_code = 200, json_body = Some (PList [])\<rparr>
        else Inr \<lparr>status_code = 200, json_body = Some (PList [PDict [(''id'', PInt 1)]])\<rparr>),
      connect_ex_reply = (\<lambda>h host prt. Inr 111),
      socket_error = (\<lambda>h a. None)\<rparr>"

text \<open>
  A controller that lists its zones on \<open>/zones\<close> only: \<open>/api/lighting/zones\<close> is
  not found, \<open>/bms/lighting\<close> answers 200 with a page that is not JSON.
\<close>

definition zones_on_third :: env where
  "zones_on_third =
     \<lparr>http_reply = (\<lambda>h v host prt p.
        if p = Path ''/zones''
        then Inr \<lparr>status_code = 200, json_body = Some (PList [PDict [(''name'', PStr ''hall'')]])\<rparr>
        else if p = Path ''/bms/lighting''
        then Inr \<lparr>status_code = 200, json_body = None\<rparr>
        else Inr \<lparr>status_code = 404, json_body = None\<rparr>),
      connect_ex_reply = (\<lambda>h host prt. Inr 111),
      socket_error = (\<lambda>h a. None)\<rparr>"

text \<open>
  A controller with three zones, listed on the first endpoint. The off-command of zone 2
  times out on every path; zones 1 and 3 accept it on the first path. No bulk command
  exists (404).
\<close>

definition three_zones :: env where
  "three_zones =
     \<lparr>http_reply = (\<lambda>h v host prt p. case p of
          Path s \<Rightarrow>
            if v = GET \<and> s = ''/api/lighting/zones''
            then Inr \<lparr>status_code = 200,
                      json_body = Some (PList [PDict [(''id'', PInt 1)], PDict [(''id'', PInt 2)],
                                               PDict [(''id'', PInt 3)]])\<rparr>
            else Inr \<lparr>status_code = 404, json_body = None\<rparr>
        | ZonePath pre zone_id suf \<Rightarrow>
            if zone_id = PInt 2 then Inl (Exn ''Timeout'')
            else Inr \<lparr>status_code = 200, json_body = None\<rparr>),
      connect_ex_reply = (\<lambda>h host prt. Inr 111),
      socket_error = (\<lambda>h a. None)\<rparr>"

text \<open>
  Two controllers with one working bulk command each: the first accepts the REST
  command \<open>POST /api/lighting/all/off\<close>, the second only the SOAP call; every other
  request is answered 404.
\<close>

definition rest_accepts :: env where
  "rest_accepts =
     \<lparr>http_reply = (\<lambda>h v host prt p.
        if v = POST \<and> p = Path ''/api/lighting/all/off''
        then Inr \<lparr>status_code = 200, json_body = None\<rparr>
        else Inr \<lparr>status_code = 404, json_body = None\<rparr>),
      connect_ex_reply = (\<lambda>h host prt. Inr 111),
      socket_error = (\<lambda>h a. Some (Exn ''ConnectionRefusedError''))\<rparr>"

definition soap_only :: env where
  "soap_only =
     \<lparr>http_reply = (\<lambda>h v host prt p.
        if v = POST \<and> p = Path ''/WebService.asmx''
        then Inr \<lparr>status_code = 200, json_body = None\<rparr>
        else Inr \<lparr>status_code = 404, json_body = None\<rparr>),
      connect_ex_reply = (\<lambda>h host prt. Inr 111),
      socket_error = (\<lambda>h a. Some (Exn ''ConnectionRefusedError''))\<rparr>"

text \<open>
  A controller on which only the third strategy of \<open>turn_off_all_lights\<close> works: it
  answers 200 to \<open>GET /lightoff.cgi?all=1\<close> and 404 to everything else.
\<close>

definition cgi_only :: env where
  "cgi_only =
     \<lparr>http_reply = (\<lambda>h v host prt p.
        if v = GET \<and> p = Path ''/lightoff.cgi?all=1''
        then Inr \<lparr>status_code = 200, json_body = None\<rparr>
        else Inr \<lparr>status_code = 404, json_body = None\<rparr>),
      connect_ex_reply = (\<lambda>h host prt. Inr 111),
      socket_error = (\<lambda>h a. Some (Exn ''ConnectionRefusedError''))\<rparr>"

text \<open>
  A controller that speaks KNX only: HTTP requests and TCP connections fail with an
  \<open>OSError\<close>, a datagram is sent without error.
\<close>

definition knx_only :: env where
  "knx_only =
     \<lparr>http_reply = (\<lambda>h v host prt p. Inl (Exn ''ConnectionError'')),
      connect_ex_reply = (\<lambda>h host prt. Inr 111),
      socket_error = (\<lambda>h a. case a of
          SockSendTo payload host prt \<Rightarrow> None
        | _ \<Rightarrow> Some (Exn ''ConnectionRefusedError''))\<rparr>"

text \<open>
  A controller whose zone listing is not a list of objects: the second element is a
  number. Every off-command is accepted.
\<close>

definition malformed_listing :: env where
  "malformed_listing =
     \<lparr>http_reply = (\<lambda>h v host prt p. case p of
          Path s \<Rightarrow>
            if v = GET \<and> s = ''/api/lighting/zones''
            then Inr \<lparr>status_code = 200,
                      json_body = Some (PList [PDict [(''id'', PInt 1)], PInt 5])\<rparr>
            else Inr \<lparr>status_code = 404, json_body = None\<rparr>
        | ZonePath pre zone_id suf \<Rightarrow> Inr \<lparr>status_code = 200, json_body = None\<rparr>),
      connect_ex_reply = (\<lambda>h host prt. Inr 111),
      socket_error = (\<lambda>h a. None)\<rparr>"

text \<open>
  A network whose answers change while it is probed: the first connection attempt is
  refused, every later one is accepted (the trace before the first \<open>connect_ex\<close> of a
  run holds two actions).
\<close>

definition warms_up :: env where
  "warms_up =
     \<lparr>http_reply = (\<lambda>h v host prt p. Inl (Exn ''ConnectionError'')),
      connect_ex_reply = (\<lambda>h host prt. if length h \<le> 2 then Inr 111 else Inr 0),
      socket_error = (\<lambda>h a. Some (Exn ''ConnectionRefusedError''))\<rparr>"

chapter \<open>Properties\<close>

section \<open>Programs that return, and programs that do not look back\<close>

lemmas io_defs =
  return_io_def raise_io_def bind_io_def lift_io_def try_except_def try_except_Exception_def
  perform_def effect_def

lemmas prim_defs =
  http_request_def response_json_def sock_open_def sock_settimeout_def sock_close_def
  sock_connect_ex_def sock_op_def sock_connect_def sock_send_def sock_sendto_def
  sock_recv_def with_socket_def sleep_def session_get_def session_post_def

lemma returnsD: "returns p \<Longrightarrow> \<exists>x h'. p h = (Inr x, h')"
  by (simp add: returns_def)

lemma returns_return: "returns (return_io x)"
  by (simp add: returns_def return_io_def)

lemma returns_effect: "returns (effect a)"
  by (simp add: returns_def effect_def)

lemma returns_bind:
  assumes "returns p" and "\<And>x. returns (f x)"
  shows "returns (bind_io p f)"
proof (unfold returns_def, rule allI)
  fix h
  obtain x h1 where p: "p h = (Inr x, h1)"
    using returnsD [OF assms(1)] by blast
  obtain y h2 where f: "f x h1 = (Inr y, h2)"
    using returnsD [OF assms(2)] by blast
  show "\<exists>y h'. bind_io p f h = (Inr y, h')"
    using p f by (simp add: bind_io_def)
qed

lemma returns_try_except:
  assumes "returns handler"
  shows "returns (try_except p handler)"
proof (unfold returns_def, rule allI)
  fix h
  obtain r h1 where p: "p h = (r, h1)" by (cases "p h")
  show "\<exists>x h'. try_except p handler h = (Inr x, h')"
  proof (cases r)
    case (Inl e)
    then show ?thesis
      using p returnsD [OF assms, of h1] by (simp add: try_except_def)
  next
    case (Inr x)
    then show ?thesis using p by (simp add: try_except_def)
  qed
qed

lemma returns_try_except_Exception:
  assumes "raises_only_Exception p" and "\<And>e. returns (handler e)"
  shows "returns (try_except_Exception p handler)"
proof (unfold returns_def, rule allI)
  fix h
  obtain r h1 where p: "p h = (r, h1)" by (cases "p h")
  show "\<exists>x h'. try_except_Exception p handler h = (Inr x, h')"
  proof (cases r)
    case (Inl e)
    show ?thesis
    proof (cases e)
      case (Exn n)
      then show ?thesis
        using p Inl returnsD [OF assms(2), of "Exn n" h1]
        by (simp add: try_except_Exception_def)
    next
      case (BaseExn n)
      then have False
        using assms(1) p Inl by (auto simp: raises_only_Exception_def dest: spec [of _ h])
      then show ?thesis ..
    qed
  next
    case (Inr x)
    then show ?thesis using p by (simp add: try_except_Exception_def)
  qed
qed

lemma returns_try_each: "returns (try_each attempt xs)"
proof (induction xs)
  case Nil
  show ?case by (simp add: returns_return)
next
  case (Cons x xs)
  show ?case
    by (simp, intro returns_bind returns_try_except returns_return)
       (simp add: returns_return Cons.IH)
qed

lemma returns_raises_only_Exception:
  assumes "returns p"
  shows "raises_only_Exception p"
proof (unfold raises_only_Exception_def, intro allI)
  fix h n
  obtain x h' where "p h = (Inr x, h')"
    using returnsD [OF assms] by blast
  then show "fst (p h) \<noteq> Inl (BaseExn n)" by simp
qed

lemma raises_only_Exception_lift:
  "(\<And>n. r \<noteq> Inl (BaseExn n)) \<Longrightarrow> raises_only_Exception (lift_io r)"
  by (simp add: raises_only_Exception_def lift_io_def)

lemma raises_only_Exception_bind:
  assumes "raises_only_Exception p" and "\<And>x. raises_only_Exception (f x)"
  shows "raises_only_Exception (bind_io p f)"
proof (unfold raises_only_Exception_def, intro allI)
  fix h n
  obtain r h1 where p: "p h = (r, h1)" by (cases "p h")
  show "fst (bind_io p f h) \<noteq> Inl (BaseExn n)"
  proof (cases r)
    case (Inl e)
    then have "e \<noteq> BaseExn n"
      using assms(1) p by (auto simp: raises_only_Exception_def dest: spec [of _ h])
    then show ?thesis using p Inl by (simp add: bind_io_def)
  next
    case (Inr x)
    then show ?thesis
      using p assms(2) [of x] by (simp add: bind_io_def raises_only_Exception_def)
  qed
qed

lemma raises_only_Exception_if:
  "raises_only_Exception p \<Longrightarrow> raises_only_Exception q \<Longrightarrow>
   raises_only_Exception (if c then p else q)"
  by simp

subsection \<open>History independence\<close>

lemma history_independentD:
  "history_independent p \<Longrightarrow> p h = (fst (p []), h @ snd (p []))"
  unfolding history_independent_def by blast

lemma history_independent_return: "history_independent (return_io x)"
  by (simp add: history_independent_def return_io_def)

lemma history_independent_lift: "history_independent (lift_io r)"
  by (simp add: history_independent_def lift_io_def)

lemma history_independent_effect: "history_independent (effect a)"
  by (simp add: history_independent_def effect_def)

lemma history_independent_perform:
  "(\<And>h. reply h = reply []) \<Longrightarrow> history_independent (perform a reply)"
  by (simp add: history_independent_def perform_def)

lemma history_independent_run:
  assumes "history_independent p" and "p [] = (r, t)"
  shows "p h = (r, h @ t)"
  using history_independentD [OF assms(1), of h] assms(2) by simp

lemma history_independent_bind:
  assumes p: "history_independent p" and f: "\<And>x. history_independent (f x)"
  shows "history_independent (bind_io p f)"
proof (unfold history_independent_def, rule allI)
  fix h
  obtain r t where p0: "p [] = (r, t)" by (cases "p []")
  have ph: "p h = (r, h @ t)"
    by (rule history_independent_run [OF p p0])
  show "bind_io p f h = (fst (bind_io p f []), h @ snd (bind_io p f []))"
  proof (cases r)
    case (Inl e)
    then show ?thesis using p0 ph by (simp add: bind_io_def)
  next
    case (Inr x)
    obtain r' t' where f0: "f x [] = (r', t')" by (cases "f x []")
    have c: "f x (h @ t) = (r', (h @ t) @ t')"
      by (rule history_independent_run [OF f f0])
    have d: "f x t = (r', t @ t')"
      by (rule history_independent_run [OF f f0])
    show ?thesis using Inr p0 ph c d by (simp add: bind_io_def)
  qed
qed

lemma history_independent_try_except:
  assumes p: "history_independent p" and q: "history_independent q"
  shows "history_independent (try_except p q)"
proof (unfold history_independent_def, rule allI)
  fix h
  obtain r t where p0: "p [] = (r, t)" by (cases "p []")
  have ph: "p h = (r, h @ t)"
    by (rule history_independent_run [OF p p0])
  show "try_except p q h = (fst (try_except p q []), h @ snd (try_except p q []))"
  proof (cases r)
    case (Inl e)
    obtain r' t' where q0: "q [] = (r', t')" by (cases "q []")
    have c: "q (h @ t) = (r', (h @ t) @ t')"
      by (rule history_independent_run [OF q q0])
    have d: "q t = (r', t @ t')"
      by (rule history_independent_run [OF q q0])
    show ?thesis using Inl p0 ph c d by (simp add: try_except_def)
  next
    case (Inr x)
    then show ?thesis using p0 ph by (simp add: try_except_def)
  qed
qed

lemma history_independent_try_except_Exception:
  assumes p: "history_independent p" and q: "\<And>e. history_independent (q e)"
  shows "history_independent (try_except_Exception p q)"
proof (unfold history_independent_def, rule allI)
  fix h
  obtain r t where p0: "p [] = (r, t)" by (cases "p []")
  have ph: "p h = (r, h @ t)"
    by (rule history_independent_run [OF p p0])
  show "try_except_Exception p q h =
          (fst (try_except_Exception p q []), h @ snd (try_except_Exception p q []))"
  proof (cases r)
    case (Inl e)
    obtain r' t' where q0: "q e [] = (r', t')" by (cases "q e []")
    have c: "q e (h @ t) = (r', (h @ t) @ t')"
      by (rule history_independent_run [OF q q0])
    have d: "q e t = (r', t @ t')"
      by (rule history_independent_run [OF q q0])
    show ?thesis using Inl p0 ph c d by (cases e) (simp_all add: try_except_Exception_def)
  next
    case (Inr x)
    then show ?thesis using p0 ph by (simp add: try_except_Exception_def)
  qed
qed

lemma history_independent_try_each:
  assumes "\<And>x. history_independent (attempt x)"
  shows "history_independent (try_each attempt xs)"
proof (induction xs)
  case Nil
  show ?case by (simp add: history_independent_return)
next
  case (Cons x xs)
  show ?case
    by (simp, intro history_independent_bind history_independent_try_except
          history_independent_return assms)
       (simp add: history_independent_return Cons.IH)
qed

lemma history_independent_fst:
  "history_independent p \<Longrightarrow> fst (p h) = fst (p h')"
  using history_independentD [of p h] history_independentD [of p h'] by simp

section \<open>The protocol probes\<close>

lemma check_controller_tcp:
  assumes "protocol = ''TCP'' \<or> protocol = ''HTTP''"
  shows "check_controller env ip prt protocol h =
    (case connect_ex_reply env (h @ [SockOpen SOCK_STREAM, SockSetTimeout 2]) ip prt of
       Inl e \<Rightarrow> (Inr False, h @ [SockOpen SOCK_STREAM, SockSetTimeout 2, SockConnectEx ip prt])
     | Inr result \<Rightarrow> (Inr (result = 0),
         h @ [SockOpen SOCK_STREAM, SockSetTimeout 2, SockConnectEx ip prt, SockClose]))"
  using assms
  by (auto simp: check_controller_def io_defs prim_defs split: sum.splits)

lemma check_controller_udp:
  "check_controller env ip prt ''UDP'' h =
    (case socket_error env (h @ [SockOpen SOCK_DGRAM, SockSetTimeout 2]) (SockSendTo ''00'' ip prt) of
       Some e \<Rightarrow> (Inr False, h @ [SockOpen SOCK_DGRAM, SockSetTimeout 2, SockSendTo ''00'' ip prt])
     | None \<Rightarrow> (Inr True,
         h @ [SockOpen SOCK_DGRAM, SockSetTimeout 2, SockSendTo ''00'' ip prt, SockClose]))"
  by (simp add: check_controller_def io_defs prim_defs split: option.splits)

lemma check_controller_other:
  assumes "protocol \<noteq> ''TCP''" and "protocol \<noteq> ''HTTP''" and "protocol \<noteq> ''UDP''"
  shows "check_controller env ip prt protocol h = (Inr False, h)"
  using assms by (simp add: check_controller_def io_defs)

lemma try_bacnet_eq:
  "try_bacnet env self h =
    (case connect_ex_reply env (h @ [SockOpen SOCK_STREAM, SockSetTimeout 2])
            (controller_ip self) 47808 of
       Inl e \<Rightarrow> Inr None
     | Inr result \<Rightarrow> Inr (if result = 0 then Some ''BACnet'' else None),
     h @ [SockOpen SOCK_STREAM, SockSetTimeout 2, SockConnectEx (controller_ip self) 47808,
          SockClose])"
  by (simp add: try_bacnet_def io_defs prim_defs split: sum.splits)

text \<open>
  C5. For a catalog entry with UDP transport, the probe reports reachable as soon as
  the one probe datagram is sent without error: nothing is received, no answer is
  awaited, and a port on which nothing listens is reported reachable when the system
  reports no failure of the send.
\<close>

theorem check_controller_udp_reachable:
  assumes "socket_error env (h @ [SockOpen SOCK_DGRAM, SockSetTimeout 2])
             (SockSendTo ''00'' ip prt) = None"
  shows "check_controller env ip prt ''UDP'' h =
           (Inr True,
            h @ [SockOpen SOCK_DGRAM, SockSetTimeout 2, SockSendTo ''00'' ip prt, SockClose])"
  using assms by (simp add: check_controller_udp)

theorem check_controller_udp_reachable_witness:
  "socket_error nothing_listens ([] @ [SockOpen SOCK_DGRAM, SockSetTimeout 2])
     (SockSendTo ''00'' ''127.0.0.1'' 47808) = None
   \<and> check_controller nothing_listens ''127.0.0.1'' 47808 ''UDP'' [] =
       (Inr True,
        [SockOpen SOCK_DGRAM, SockSetTimeout 2, SockSendTo ''00'' ''127.0.0.1'' 47808, SockClose])
   \<and> fst (check_controller nothing_listens ''127.0.0.1'' 47808 ''TCP'' []) = Inr False"
proof -
  have sent: "socket_error nothing_listens ([] @ [SockOpen SOCK_DGRAM, SockSetTimeout 2])
     (SockSendTo ''00'' ''127.0.0.1'' 47808) = None"
    by (simp add: nothing_listens_def)
  have tcp: "fst (check_controller nothing_listens ''127.0.0.1'' 47808 ''TCP'' []) = Inr False"
    by (simp add: check_controller_tcp nothing_listens_def)
  from check_controller_udp_reachable [OF sent] sent tcp show ?thesis by simp
qed

text \<open>
  C6. The probes never raise. \<open>check_controller\<close> returns a boolean from every
  trace, for every target, port and transport name, and it is \<open>True\<close> only where the
  transport operation completed: a TCP or HTTP probe is reachable exactly when
  \<open>connect_ex\<close> returned 0 (any exception and any error code, such as a timeout or a
  refused connection, give \<open>False\<close>), a UDP probe exactly when \<open>sendto\<close> raised
  nothing, and any other transport name gives \<open>False\<close>. \<open>_try_bacnet\<close> likewise
  returns \<open>None\<close> for every exception and every non-zero code. The timeout is the
  source's constant of 2 seconds.
\<close>

theorem probe_never_raises:
  "(\<exists>reachable h'. check_controller env ip prt protocol h = (Inr reachable, h'))
   \<and> (protocol \<in> set [''TCP'', ''HTTP''] \<longrightarrow>
        fst (check_controller env ip prt protocol h) =
          Inr (connect_ex_reply env (h @ [SockOpen SOCK_STREAM, SockSetTimeout 2]) ip prt = Inr 0))
   \<and> (protocol = ''UDP'' \<longrightarrow>
        fst (check_controller env ip prt protocol h) =
          Inr (socket_error env (h @ [SockOpen SOCK_DGRAM, SockSetTimeout 2])
                 (SockSendTo ''00'' ip prt) = None))
   \<and> (protocol \<notin> set [''TCP'', ''HTTP'', ''UDP''] \<longrightarrow>
        fst (check_controller env ip prt protocol h) = Inr False)
   \<and> fst (try_bacnet env self h) =
        Inr (if connect_ex_reply env (h @ [SockOpen SOCK_STREAM, SockSetTimeout 2])
                  (controller_ip self) 47808 = Inr 0
             then Some ''BACnet'' else None)"
proof (intro conjI impI)
  consider (tcp) "protocol = ''TCP'' \<or> protocol = ''HTTP''" | (udp) "protocol = ''UDP''"
    | (other) "protocol \<noteq> ''TCP''" "protocol \<noteq> ''HTTP''" "protocol \<noteq> ''UDP''"
    by blast
  then show "\<exists>reachable h'. check_controller env ip prt protocol h = (Inr reachable, h')"
  proof cases
    case tcp
    then show ?thesis by (auto simp: check_controller_tcp split: sum.splits)
  next
    case udp
    then show ?thesis by (auto simp: check_controller_udp split: option.splits)
  next
    case other
    then show ?thesis by (auto simp: check_controller_other)
  qed
next
  assume "protocol \<in> set [''TCP'', ''HTTP'']"
  then have "protocol = ''TCP'' \<or> protocol = ''HTTP''" by simp
  then show "fst (check_controller env ip prt protocol h) =
          Inr (connect_ex_reply env (h @ [SockOpen SOCK_STREAM, SockSetTimeout 2]) ip prt = Inr 0)"
    by (simp add: check_controller_tcp split: sum.splits)
next
  assume "protocol = ''UDP''"
  then show "fst (check_controller env ip prt protocol h) =
          Inr (socket_error env (h @ [SockOpen SOCK_DGRAM, SockSetTimeout 2])
                 (SockSendTo ''00'' ip prt) = None)"
    by (simp add: check_controller_udp split: option.splits)
next
  assume "protocol \<notin> set [''TCP'', ''HTTP'', ''UDP'']"
  then show "fst (check_controller env ip prt protocol h) = Inr False"
    by (simp add: check_controller_other)
next
  show "fst (try_bacnet env self h) =
        Inr (if connect_ex_reply env (h @ [SockOpen SOCK_STREAM, SockSetTimeout 2])
                  (controller_ip self) 47808 = Inr 0
             then Some ''BACnet'' else None)"
    by (simp add: try_bacnet_eq split: sum.splits)
qed

theorem probe_never_raises_witness:
  "''TCP'' \<in> set [''TCP'', ''HTTP'']
   \<and> fst (check_controller all_interrupted ''plc.local'' 502 ''TCP'' []) = Inr False
   \<and> fst (check_controller all_interrupted ''plc.local'' 3671 ''UDP'' []) = Inr False
   \<and> ''SCTP'' \<notin> set [''TCP'', ''HTTP'', ''UDP'']
   \<and> fst (check_controller all_interrupted ''plc.local'' 502 ''SCTP'' []) = Inr False
   \<and> fst (try_bacnet all_interrupted bms0 []) = Inr None"
proof -
  have a: "fst (check_controller all_interrupted ''plc.local'' 502 ''TCP'' []) = Inr False"
    using probe_never_raises [of all_interrupted "''plc.local''" 502 "''TCP''" "[]" bms0]
    by (simp add: all_interrupted_def)
  have b: "fst (check_controller all_interrupted ''plc.local'' 3671 ''UDP'' []) = Inr False"
    using probe_never_raises [of all_interrupted "''plc.local''" 3671 "''UDP''" "[]" bms0]
    by (simp add: all_interrupted_def)
  have c: "fst (check_controller all_interrupted ''plc.local'' 502 ''SCTP'' []) = Inr False"
    using probe_never_raises [of all_interrupted "''plc.local''" 502 "''SCTP''" "[]" bms0]
    by simp
  have d: "fst (try_bacnet all_interrupted bms0 []) = Inr None"
    using probe_never_raises [of all_interrupted "''plc.local''" 502 "''TCP''" "[]" bms0]
    by (simp add: all_interrupted_def)
  from a b c d show ?thesis by simp
qed

section \<open>Zone enumeration\<close>

lemma zone_attempt:
  "try_except
     (bind_io (session_get env self endpoint) (\<lambda>response.
        if status_code response = 200
        then bind_io (response_json response) (\<lambda>v. return_io (Some v))
        else return_io None))
     (return_io None) h
   = (Inr (endpoint_yield env self endpoint h), h @ [zone_request self endpoint])"
  by (simp add: io_defs prim_defs endpoint_yield_def zone_request_def
      split: sum.splits option.splits)

lemma get_lighting_zones_loop_step:
  "get_lighting_zones_loop env self (endpoint # endpoints) h =
     (case endpoint_yield env self endpoint h of
        Some v \<Rightarrow> (Inr v, h @ [zone_request self endpoint])
      | None \<Rightarrow> get_lighting_zones_loop env self endpoints (h @ [zone_request self endpoint]))"
  by (simp add: bind_io_def [of "try_except p q" for p q] zone_attempt return_io_def
      split: option.splits)

declare get_lighting_zones_loop.simps(2) [simp del]

lemma get_lighting_zones_loop_first:
  "k < length endpoints \<Longrightarrow>
   \<forall>i<k. endpoint_yield env self (endpoints ! i)
            (h @ map (zone_request self) (take i endpoints)) = None \<Longrightarrow>
   endpoint_yield env self (endpoints ! k)
            (h @ map (zone_request self) (take k endpoints)) = Some v \<Longrightarrow>
   get_lighting_zones_loop env self endpoints h =
     (Inr v, h @ map (zone_request self) (take (Suc k) endpoints))"
proof (induction endpoints arbitrary: k h)
  case Nil
  then show ?case by simp
next
  case (Cons e es)
  show ?case
  proof (cases k)
    case 0
    then show ?thesis
      using Cons.prems(3) by (simp add: get_lighting_zones_loop_step)
  next
    case (Suc j)
    have first: "endpoint_yield env self e h = None"
      using Cons.prems(2) Suc by (auto dest: spec [of _ 0])
    have j: "j < length es" using Cons.prems(1) Suc by simp
    have earlier: "\<forall>i<j. endpoint_yield env self (es ! i)
        ((h @ [zone_request self e]) @ map (zone_request self) (take i es)) = None"
    proof (intro allI impI)
      fix i assume "i < j"
      then have "Suc i < k" using Suc by simp
      with Cons.prems(2) show "endpoint_yield env self (es ! i)
        ((h @ [zone_request self e]) @ map (zone_request self) (take i es)) = None"
        by (auto dest: spec [of _ "Suc i"])
    qed
    have hit: "endpoint_yield env self (es ! j)
        ((h @ [zone_request self e]) @ map (zone_request self) (take j es)) = Some v"
      using Cons.prems(3) Suc by simp
    from Cons.IH [OF j earlier hit] first Suc show ?thesis
      by (simp add: get_lighting_zones_loop_step)
  qed
qed

lemma get_lighting_zones_loop_none:
  "\<forall>i<length endpoints. endpoint_yield env self (endpoints ! i)
            (h @ map (zone_request self) (take i endpoints)) = None \<Longrightarrow>
   get_lighting_zones_loop env self endpoints h =
     (Inr (PList []), h @ map (zone_request self) endpoints)"
proof (induction endpoints arbitrary: h)
  case Nil
  then show ?case by (simp add: return_io_def)
next
  case (Cons e es)
  have first: "endpoint_yield env self e h = None"
    using Cons.prems by (auto dest: spec [of _ 0])
  have rest: "\<forall>i<length es. endpoint_yield env self (es ! i)
        ((h @ [zone_request self e]) @ map (zone_request self) (take i es)) = None"
  proof (intro allI impI)
    fix i assume "i < length es"
    then have "Suc i < length (e # es)" by simp
    with Cons.prems show "endpoint_yield env self (es ! i)
        ((h @ [zone_request self e]) @ map (zone_request self) (take i es)) = None"
      by (auto dest: spec [of _ "Suc i"])
  qed
  from Cons.IH [OF rest] first show ?case
    by (simp add: get_lighting_zones_loop_step)
qed

lemma returns_get_lighting_zones_loop: "returns (get_lighting_zones_loop env self endpoints)"
proof (induction endpoints)
  case Nil
  show ?case by (simp add: returns_return)
next
  case (Cons e es)
  show ?case
  proof (unfold returns_def, rule allI)
    fix h
    show "\<exists>x h'. get_lighting_zones_loop env self (e # es) h = (Inr x, h')"
      using returnsD [OF Cons.IH, of "h @ [zone_request self e]"]
      by (simp add: get_lighting_zones_loop_step split: option.splits)
  qed
qed

lemma get_lighting_zones_eq_loop:
  "get_lighting_zones env self h = get_lighting_zones_loop env self lighting_zone_endpoints h"
proof -
  obtain v h' where "get_lighting_zones_loop env self lighting_zone_endpoints h = (Inr v, h')"
    using returnsD [OF returns_get_lighting_zones_loop] by blast
  then show ?thesis
    by (simp add: get_lighting_zones_def try_except_Exception_def)
qed

lemma returns_get_lighting_zones: "returns (get_lighting_zones env self)"
  unfolding returns_def
  by (simp add: get_lighting_zones_eq_loop returnsD [OF returns_get_lighting_zones_loop])

text \<open>
  C7, as stated, fails: a controller whose first listing endpoint answers 200 with an
  empty list, and whose second would list a zone, gets the empty list from
  \<open>get_lighting_zones\<close>, where the first non-empty parseable list is the second
  endpoint's.
\<close>

theorem get_lighting_zones_returns_empty_first:
  "fst (get_lighting_zones first_listing_empty bms0 []) = Inr (PList [])
   \<and> enumerate_zones_spec first_listing_empty bms0 lighting_zone_endpoints []
       = PList [PDict [(''id'', PInt 1)]]
   \<and> fst (get_lighting_zones first_listing_empty bms0 [])
       \<noteq> Inr (enumerate_zones_spec first_listing_empty bms0 lighting_zone_endpoints [])"
proof -
  have code: "fst (get_lighting_zones first_listing_empty bms0 []) = Inr (PList [])"
    by (simp add: get_lighting_zones_eq_loop lighting_zone_endpoints_def
        get_lighting_zones_loop_step endpoint_yield_def first_listing_empty_def)
  have spec: "enumerate_zones_spec first_listing_empty bms0 lighting_zone_endpoints []
       = PList [PDict [(''id'', PInt 1)]]"
    by (simp add: lighting_zone_endpoints_def endpoint_yield_def first_listing_empty_def)
  from code spec show ?thesis by simp
qed

text \<open>
  C7, amended. \<open>get_lighting_zones\<close> never raises. It asks its five endpoints in
  order, one GET each, and returns the parsed body of the first whose response has
  status 200 and a body that parses as JSON, whatever that value is (an empty list and
  a value that is no list included), asking no endpoint after it; when no endpoint
  answers so, it returns the empty list.
\<close>

theorem get_lighting_zones_first_parseable:
  "(\<exists>v h'. get_lighting_zones env self h = (Inr v, h'))
   \<and> (k < length lighting_zone_endpoints
        \<and> (\<forall>i<k. endpoint_yield env self (lighting_zone_endpoints ! i)
               (h @ map (zone_request self) (take i lighting_zone_endpoints)) = None)
        \<and> endpoint_yield env self (lighting_zone_endpoints ! k)
               (h @ map (zone_request self) (take k lighting_zone_endpoints)) = Some v
      \<longrightarrow> get_lighting_zones env self h =
            (Inr v, h @ map (zone_request self) (take (Suc k) lighting_zone_endpoints)))
   \<and> ((\<forall>i<length lighting_zone_endpoints.
          endpoint_yield env self (lighting_zone_endpoints ! i)
               (h @ map (zone_request self) (take i lighting_zone_endpoints)) = None)
      \<longrightarrow> get_lighting_zones env self h =
            (Inr (PList []), h @ map (zone_request self) lighting_zone_endpoints))"
proof (intro conjI impI)
  show "\<exists>v h'. get_lighting_zones env self h = (Inr v, h')"
    by (rule returnsD [OF returns_get_lighting_zones])
next
  assume "k < length lighting_zone_endpoints
        \<and> (\<forall>i<k. endpoint_yield env self (lighting_zone_endpoints ! i)
               (h @ map (zone_request self) (take i lighting_zone_endpoints)) = None)
        \<and> endpoint_yield env self (lighting_zone_endpoints ! k)
               (h @ map (zone_request self) (take k lighting_zone_endpoints)) = Some v"
  then show "get_lighting_zones env self h =
            (Inr v, h @ map (zone_request self) (take (Suc k) lighting_zone_endpoints))"
    unfolding get_lighting_zones_eq_loop
    by (intro get_lighting_zones_loop_first) blast+
next
  assume "\<forall>i<length lighting_zone_endpoints.
          endpoint_yield env self (lighting_zone_endpoints ! i)
               (h @ map (zone_request self) (take i lighting_zone_endpoints)) = None"
  then show "get_lighting_zones env self h =
            (Inr (PList []), h @ map (zone_request self) lighting_zone_endpoints)"
    unfolding get_lighting_zones_eq_loop
    by (rule get_lighting_zones_loop_none)
qed

theorem get_lighting_zones_first_parseable_witness:
  "get_lighting_zones zones_on_third bms0 [] =
     (Inr (PList [PDict [(''name'', PStr ''hall'')]]),
      [Http GET ''192.168.1.100'' 80 (Path ''/api/lighting/zones''),
       Http GET ''192.168.1.100'' 80 (Path ''/bms/lighting''),
       Http GET ''192.168.1.100'' 80 (Path ''/zones'')])
   \<and> get_lighting_zones nothing_listens bms0 [] =
     (Inr (PList []),
      [Http GET ''192.168.1.100'' 80 (Path ''/api/lighting/zones''),
       Http GET ''192.168.1.100'' 80 (Path ''/bms/lighting''),
       Http GET ''192.168.1.100'' 80 (Path ''/zones''),
       Http GET ''192.168.1.100'' 80 (Path ''/api/zones''),
       Http GET ''192.168.1.100'' 80 (Path ''/lighting'')])"
proof -
  let ?v = "PList [PDict [(''name'', PStr ''hall'')]]"
  have third: "2 < length lighting_zone_endpoints
        \<and> (\<forall>i<2. endpoint_yield zones_on_third bms0 (lighting_zone_endpoints ! i)
               ([] @ map (zone_request bms0) (take i lighting_zone_endpoints)) = None)
        \<and> endpoint_yield zones_on_third bms0 (lighting_zone_endpoints ! 2)
               ([] @ map (zone_request bms0) (take 2 lighting_zone_endpoints)) = Some ?v"
    by (auto dest!: less_2_cases
        simp: lighting_zone_endpoints_def endpoint_yield_def zones_on_third_def)
  have none: "\<forall>i<length lighting_zone_endpoints.
          endpoint_yield nothing_listens bms0 (lighting_zone_endpoints ! i)
               ([] @ map (zone_request bms0) (take i lighting_zone_endpoints)) = None"
    by (simp add: endpoint_yield_def nothing_listens_def)
  have a: "get_lighting_zones zones_on_third bms0 [] =
     (Inr ?v, [] @ map (zone_request bms0) (take (Suc 2) lighting_zone_endpoints))"
    using get_lighting_zones_first_parseable [of zones_on_third bms0 "[]" 2 ?v] third
    by blast
  have b: "get_lighting_zones nothing_listens bms0 [] =
     (Inr (PList []), [] @ map (zone_request bms0) lighting_zone_endpoints)"
    using get_lighting_zones_first_parseable [of nothing_listens bms0 "[]" 0 PNone] none
    by blast
  from a b show ?thesis
    by (simp add: lighting_zone_endpoints_def zone_request_def bms0_def)
qed

section \<open>The zone-by-zone fallback\<close>

lemma returns_turn_off_zone: "returns (turn_off_zone env self zone_id)"
  by (simp add: turn_off_zone_def returns_try_each)

lemma zone_id_of_dict: "is_dict zone \<Longrightarrow> \<exists>zone_id. zone_id_of zone = Inr zone_id"
  by (cases zone) (simp_all add: zone_id_of_def)

lemma turn_off_zones_loop_step:
  assumes "zone_id_of zone = Inr zone_id"
    and "turn_off_zone env self zone_id h = (Inr ok, h1)"
  shows "turn_off_zones_loop env self (zone # zones) c h =
           (if ok then turn_off_zones_loop env self zones (c + 1) (h1 @ [Sleep 500])
            else turn_off_zones_loop env self zones c h1)"
  using assms by (simp add: bind_io_def lift_io_def sleep_def effect_def)

lemma zone_results_step:
  assumes "zone_id_of zone = Inr zone_id"
    and "turn_off_zone env self zone_id h = (Inr ok, h1)"
  shows "zone_results env self (zone # zones) h =
           ok # zone_results env self zones (if ok then h1 @ [Sleep 500] else h1)"
  using assms by (simp add: Let_def)

declare turn_off_zones_loop.simps(2) [simp del]
declare zone_results.simps(2) [simp del]

lemma turn_off_zones_loop_count:
  "\<forall>zone\<in>set zones. is_dict zone \<Longrightarrow>
   \<exists>h'. turn_off_zones_loop env self zones c h =
          (Inr (c + success_count_of (zone_results env self zones h)), h')"
proof (induction zones arbitrary: c h)
  case Nil
  show ?case by (simp add: return_io_def success_count_of_def)
next
  case (Cons zone zones)
  obtain zone_id where zid: "zone_id_of zone = Inr zone_id"
    using Cons.prems zone_id_of_dict [of zone] by auto
  obtain ok h1 where off: "turn_off_zone env self zone_id h = (Inr ok, h1)"
    using returnsD [OF returns_turn_off_zone] by blast
  have rest: "\<forall>zone\<in>set zones. is_dict zone" using Cons.prems by simp
  show ?case
  proof (cases ok)
    case True
    obtain h' where "turn_off_zones_loop env self zones (c + 1) (h1 @ [Sleep 500]) =
        (Inr (c + 1 + success_count_of (zone_results env self zones (h1 @ [Sleep 500]))), h')"
      using Cons.IH [OF rest] by blast
    then show ?thesis
      using True
      by (simp add: turn_off_zones_loop_step [OF zid off] zone_results_step [OF zid off]
          success_count_of_def)
  next
    case False
    obtain h' where "turn_off_zones_loop env self zones c h1 =
        (Inr (c + success_count_of (zone_results env self zones h1)), h')"
      using Cons.IH [OF rest] by blast
    then show ?thesis
      using False
      by (simp add: turn_off_zones_loop_step [OF zid off] zone_results_step [OF zid off]
          success_count_of_def)
  qed
qed

lemma length_zone_results:
  "\<forall>zone\<in>set zones. is_dict zone \<Longrightarrow> length (zone_results env self zones h) = length zones"
proof (induction zones arbitrary: h)
  case Nil
  show ?case by simp
next
  case (Cons zone zones)
  obtain zone_id where zid: "zone_id_of zone = Inr zone_id"
    using Cons.prems zone_id_of_dict [of zone] by auto
  obtain ok h1 where off: "turn_off_zone env self zone_id h = (Inr ok, h1)"
    using returnsD [OF returns_turn_off_zone] by blast
  have rest: "\<forall>zone\<in>set zones. is_dict zone" using Cons.prems by simp
  show ?case
    by (simp add: zone_results_step [OF zid off] Cons.IH [OF rest])
qed

lemma success_failure_count:
  "success_count_of results + failure_count_of results = length results"
  by (induction results) (simp_all add: success_count_of_def failure_count_of_def)

lemma success_count_pos:
  "0 < success_count_of results \<longleftrightarrow> (\<exists>i<length results. results ! i)"
proof -
  have "0 < success_count_of results \<longleftrightarrow> (\<exists>ok\<in>set results. ok)"
    by (simp add: success_count_of_def filter_empty_conv)
  also have "\<dots> \<longleftrightarrow> (\<exists>i<length results. results ! i)"
    by (metis in_set_conv_nth)
  finally show ?thesis .
qed

text \<open>
  C3. For every non-empty list of zones that the controller lists, the zone-by-zone
  operation reports success exactly when at least one zone's off-command succeeded:
  its counter ends at the number of zones whose \<open>turn_off_zone\<close> returned
  \<open>True\<close>, its result is \<open>success_count > 0\<close>, and every zone has an outcome, so
  that the failures are the zones that are left. (The source keeps no failure counter;
  \<open>failure_count_of\<close> counts the \<open>False\<close> outcomes.) A zone is a JSON object:
  \<open>get_lighting_zones\<close> is declared to return \<open>List[Dict]\<close>, and the loop
  calls \<open>zone.get\<close>.
\<close>

theorem turn_off_zone_by_zone_partial_success:
  assumes "get_lighting_zones env self h = (Inr (PList zones), h1)"
    and "zones \<noteq> []"
    and "\<forall>zone\<in>set zones. is_dict zone"
  shows "(\<exists>h2. turn_off_zones_loop env self zones 0 h1 =
                (Inr (success_count_of (zone_results env self zones h1)), h2)
            \<and> turn_off_zone_by_zone env self h =
                (Inr (0 < success_count_of (zone_results env self zones h1)), h2))
    \<and> length (zone_results env self zones h1) = length zones
    \<and> success_count_of (zone_results env self zones h1)
           + failure_count_of (zone_results env self zones h1) = length zones
    \<and> (0 < success_count_of (zone_results env self zones h1)
           \<longleftrightarrow> (\<exists>i<length zones. zone_results env self zones h1 ! i))"
proof -
  let ?rs = "zone_results env self zones h1"
  obtain h2 where loop: "turn_off_zones_loop env self zones 0 h1 =
      (Inr (0 + success_count_of ?rs), h2)"
    using turn_off_zones_loop_count [OF assms(3)] by blast
  have "turn_off_zone_by_zone env self h = (Inr (0 < success_count_of ?rs), h2)"
    using assms(1,2) loop
    by (simp add: turn_off_zone_by_zone_def io_defs)
  with loop have run: "\<exists>h2. turn_off_zones_loop env self zones 0 h1 =
              (Inr (success_count_of ?rs), h2)
            \<and> turn_off_zone_by_zone env self h = (Inr (0 < success_count_of ?rs), h2)"
    by simp
  have len: "length ?rs = length zones"
    by (rule length_zone_results [OF assms(3)])
  have sum: "success_count_of ?rs + failure_count_of ?rs = length zones"
    using success_failure_count [of ?rs] len by simp
  have pos: "0 < success_count_of ?rs \<longleftrightarrow> (\<exists>i<length zones. ?rs ! i)"
    using success_count_pos [of ?rs] len by simp
  from run len sum pos show ?thesis by blast
qed

lemma three_zones_listing:
  "get_lighting_zones three_zones bms0 [] =
     (Inr (PList [PDict [(''id'', PInt 1)], PDict [(''id'', PInt 2)], PDict [(''id'', PInt 3)]]),
      [Http GET ''192.168.1.100'' 80 (Path ''/api/lighting/zones'')])"
  by (simp add: get_lighting_zones_eq_loop lighting_zone_endpoints_def
      get_lighting_zones_loop_step endpoint_yield_def three_zones_def zone_request_def bms0_def)

lemma three_zones_results:
  "zone_results three_zones bms0
     [PDict [(''id'', PInt 1)], PDict [(''id'', PInt 2)], PDict [(''id'', PInt 3)]]
     [Http GET ''192.168.1.100'' 80 (Path ''/api/lighting/zones'')]
   = [True, False, True]"
  by (simp add: zone_results.simps(2) zone_id_of_def turn_off_zone_def zone_off_endpoints_def
      io_defs prim_defs three_zones_def bms0_def Let_def)

theorem turn_off_zone_by_zone_partial_success_witness:
  "get_lighting_zones three_zones bms0 [] =
     (Inr (PList [PDict [(''id'', PInt 1)], PDict [(''id'', PInt 2)], PDict [(''id'', PInt 3)]]),
      [Http GET ''192.168.1.100'' 80 (Path ''/api/lighting/zones'')])
   \<and> zone_results three_zones bms0
        [PDict [(''id'', PInt 1)], PDict [(''id'', PInt 2)], PDict [(''id'', PInt 3)]]
        [Http GET ''192.168.1.100'' 80 (Path ''/api/lighting/zones'')] = [True, False, True]
   \<and> success_count_of [True, False, True] = 2
   \<and> failure_count_of [True, False, True] = 1
   \<and> fst (turn_off_zone_by_zone three_zones bms0 []) = Inr True"
proof -
  let ?zones = "[PDict [(''id'', PInt 1)], PDict [(''id'', PInt 2)], PDict [(''id'', PInt 3)]]"
  have dicts: "\<forall>zone\<in>set ?zones. is_dict zone" by simp
  have nonempty: "?zones \<noteq> []" by simp
  have counts: "success_count_of [True, False, True] = 2"
      "failure_count_of [True, False, True] = 1"
    by (simp_all add: success_count_of_def failure_count_of_def)
  from turn_off_zone_by_zone_partial_success [OF three_zones_listing nonempty dicts]
  have "fst (turn_off_zone_by_zone three_zones bms0 []) = Inr True"
    unfolding three_zones_results using counts by auto
  with three_zones_listing three_zones_results counts show ?thesis by simp
qed

text \<open>
  Outside that type the loop does not finish: on a listing with an element that is no
  object, \<open>zone.get\<close> raises \<open>AttributeError\<close>, the handler of
  \<open>_turn_off_zone_by_zone\<close> returns \<open>False\<close>, and the zones already switched
  off do not count.
\<close>

lemma turn_off_zone_by_zone_malformed_listing:
  "turn_off_zone_by_zone malformed_listing bms0 [] =
    (Inr False,
     [Http GET ''192.168.1.100'' 80 (Path ''/api/lighting/zones''),
      Http POST ''192.168.1.100'' 80 (ZonePath ''/api/lighting/zones/'' (PInt 1) ''/off''),
      Sleep 500])"
proof -
  have listing: "get_lighting_zones malformed_listing bms0 [] =
     (Inr (PList [PDict [(''id'', PInt 1)], PInt 5]),
      [Http GET ''192.168.1.100'' 80 (Path ''/api/lighting/zones'')])"
    by (simp add: get_lighting_zones_eq_loop lighting_zone_endpoints_def
        get_lighting_zones_loop_step endpoint_yield_def malformed_listing_def zone_request_def
        bms0_def)
  have loop: "turn_off_zones_loop malformed_listing bms0 [PDict [(''id'', PInt 1)], PInt 5] 0
      [Http GET ''192.168.1.100'' 80 (Path ''/api/lighting/zones'')] =
     (Inl (Exn ''AttributeError''),
      [Http GET ''192.168.1.100'' 80 (Path ''/api/lighting/zones''),
       Http POST ''192.168.1.100'' 80 (ZonePath ''/api/lighting/zones/'' (PInt 1) ''/off''),
       Sleep 500])"
    by (simp add: turn_off_zones_loop.simps(2) zone_id_of_def turn_off_zone_def
        zone_off_endpoints_def io_defs prim_defs malformed_listing_def bms0_def)
  show ?thesis
    by (simp add: turn_off_zone_by_zone_def listing loop io_defs)
qed

lemma three_zones_loop:
  "turn_off_zones_loop three_zones bms0
     [PDict [(''id'', PInt 1)], PDict [(''id'', PInt 2)], PDict [(''id'', PInt 3)]] 0
     [Http GET ''192.168.1.100'' 80 (Path ''/api/lighting/zones'')] =
   (Inr 2,
     [Http GET ''192.168.1.100'' 80 (Path ''/api/lighting/zones''),
      Http POST ''192.168.1.100'' 80 (ZonePath ''/api/lighting/zones/'' (PInt 1) ''/off''),
      Sleep 500,
      Http POST ''192.168.1.100'' 80 (ZonePath ''/api/lighting/zones/'' (PInt 2) ''/off''),
      Http POST ''192.168.1.100'' 80 (ZonePath ''/bms/lighting/zone/'' (PInt 2) ''/off''),
      Http POST ''192.168.1.100'' 80 (ZonePath ''/api/control/zone/'' (PInt 2) []),
      Http POST ''192.168.1.100'' 80 (ZonePath ''/zone/'' (PInt 2) ''/off''),
      Http POST ''192.168.1.100'' 80 (ZonePath ''/api/lighting/zones/'' (PInt 3) ''/off''),
      Sleep 500])"
  by (simp add: turn_off_zones_loop.simps(2) zone_id_of_def turn_off_zone_def
      zone_off_endpoints_def io_defs prim_defs three_zones_def bms0_def)

text \<open>
  C4: the zone commands go out one zone at a time, in the list's order, with the pause
  before the next zone whatever the outcome of the current one. The code at a failing
  input, three zones of which the second fails on all four paths: the commands do go out
  one at a time and in order, but the pause follows the successful zones only. The four
  failed requests of zone 2 are followed at once by the request of zone 3, with no
  \<open>Sleep\<close> between them.
\<close>

theorem turn_off_zone_by_zone_no_pause_after_failure:
  "turn_off_zone_by_zone three_zones bms0 [] =
    (Inr True,
     [Http GET ''192.168.1.100'' 80 (Path ''/api/lighting/zones''),
      Http POST ''192.168.1.100'' 80 (ZonePath ''/api/lighting/zones/'' (PInt 1) ''/off''),
      Sleep 500,
      Http POST ''192.168.1.100'' 80 (ZonePath ''/api/lighting/zones/'' (PInt 2) ''/off''),
      Http POST ''192.168.1.100'' 80 (ZonePath ''/bms/lighting/zone/'' (PInt 2) ''/off''),
      Http POST ''192.168.1.100'' 80 (ZonePath ''/api/control/zone/'' (PInt 2) []),
      Http POST ''192.168.1.100'' 80 (ZonePath ''/zone/'' (PInt 2) ''/off''),
      Http POST ''192.168.1.100'' 80 (ZonePath ''/api/lighting/zones/'' (PInt 3) ''/off''),
      Sleep 500])"
  by (simp add: turn_off_zone_by_zone_def three_zones_listing three_zones_loop io_defs)

section \<open>The dispatchers\<close>

subsection \<open>The strategies of \<open>turn_off_all_lights\<close> return\<close>

lemma returns_turn_off_via_rest: "returns (turn_off_via_rest env self)"
  by (simp add: turn_off_via_rest_def returns_try_each)

lemma returns_turn_off_via_soap: "returns (turn_off_via_soap env self)"
  by (simp add: turn_off_via_soap_def returns_try_except returns_return)

lemma returns_turn_off_via_simple_http: "returns (turn_off_via_simple_http env self)"
  by (simp add: turn_off_via_simple_http_def returns_try_each)

lemma returns_turn_off_via_bacnet_simulation: "returns (turn_off_via_bacnet_simulation env self)"
  by (simp add: turn_off_via_bacnet_simulation_def returns_try_except returns_return)

lemma zone_id_of_no_BaseExn: "zone_id_of zone \<noteq> Inl (BaseExn n)"
  by (cases zone) (simp_all add: zone_id_of_def)

lemma py_iter_no_BaseExn: "py_iter zones \<noteq> Inl (BaseExn n)"
  by (cases zones) simp_all

lemma raises_only_Exception_zones_loop:
  "raises_only_Exception (turn_off_zones_loop env self zones c)"
proof (induction zones arbitrary: c)
  case Nil
  show ?case
    by (simp add: returns_raises_only_Exception returns_return)
next
  case (Cons zone zones)
  show ?case
    unfolding turn_off_zones_loop.simps
    by (intro raises_only_Exception_bind raises_only_Exception_if raises_only_Exception_lift
          zone_id_of_no_BaseExn Cons.IH
          returns_raises_only_Exception [OF returns_turn_off_zone]
          returns_raises_only_Exception [OF returns_effect [of "Sleep 500", folded sleep_def]])
qed

lemma returns_turn_off_zone_by_zone: "returns (turn_off_zone_by_zone env self)"
  unfolding turn_off_zone_by_zone_def
  by (intro returns_try_except_Exception returns_return raises_only_Exception_bind
        raises_only_Exception_if raises_only_Exception_zones_loop
        raises_only_Exception_lift py_iter_no_BaseExn
        returns_raises_only_Exception [OF returns_get_lighting_zones]
        returns_raises_only_Exception [OF returns_return])

lemma returns_bms_methods: "\<forall>method\<in>set (bms_methods env self). returns method"
  by (simp add: bms_methods_def returns_turn_off_via_rest returns_turn_off_via_soap
      returns_turn_off_via_simple_http returns_turn_off_via_bacnet_simulation
      returns_turn_off_zone_by_zone)

subsection \<open>The loop of \<open>turn_off_all_lights\<close>\<close>

lemma turn_off_all_lights_loop_step:
  "turn_off_all_lights_loop (method # methods) h =
     (case method h of
        (Inr ok, h') \<Rightarrow> if ok then (Inr True, h') else turn_off_all_lights_loop methods h'
      | (Inl (Exn n), h') \<Rightarrow> turn_off_all_lights_loop methods h'
      | (Inl (BaseExn n), h') \<Rightarrow> (Inl (BaseExn n), h'))"
  by (simp add: io_defs split: prod.splits sum.splits exn.splits)

declare turn_off_all_lights_loop.simps(2) [simp del]

lemma failed_cases:
  "failed r \<longleftrightarrow> r = Inr False \<or> (\<exists>n. r = Inl (Exn n))"
  by (cases r rule: failed.cases) simp_all

lemma turn_off_all_lights_loop_failed_head:
  assumes "failed (fst (method h))"
  shows "turn_off_all_lights_loop (method # methods) h =
           turn_off_all_lights_loop methods (snd (method h))"
  using assms
  by (cases "method h") (auto simp: turn_off_all_lights_loop_step failed_cases)

lemma turn_off_all_lights_loop_first_success:
  "first_success_at failed methods k h \<Longrightarrow>
   turn_off_all_lights_loop methods h = (Inr True, run_seq (take (Suc k) methods) h)"
proof (induction methods arbitrary: k h)
  case Nil
  then show ?case by (simp add: first_success_at_def)
next
  case (Cons m ms)
  show ?case
  proof (cases k)
    case 0
    then have "fst (m h) = Inr True"
      using Cons.prems by (simp add: first_success_at_def)
    then show ?thesis
      using 0 by (cases "m h") (simp add: turn_off_all_lights_loop_step)
  next
    case (Suc j)
    have head: "failed (fst (m h))"
      using Cons.prems Suc by (auto simp: first_success_at_def dest: spec [of _ 0])
    have "first_success_at failed ms j (snd (m h))"
      unfolding first_success_at_def
    proof (intro conjI allI impI)
      show "j < length ms"
        using Cons.prems Suc by (simp add: first_success_at_def)
      show "fst ((ms ! j) (run_seq (take j ms) (snd (m h)))) = Inr True"
        using Cons.prems Suc by (simp add: first_success_at_def)
      fix i assume "i < j"
      then have "Suc i < k" using Suc by simp
      then have "failed (fst (((m # ms) ! Suc i) (run_seq (take (Suc i) (m # ms)) h)))"
        using Cons.prems unfolding first_success_at_def by blast
      then show "failed (fst ((ms ! i) (run_seq (take i ms) (snd (m h)))))" by simp
    qed
    from Cons.IH [OF this] show ?thesis
      using Suc head by (simp add: turn_off_all_lights_loop_failed_head [of m h ms])
  qed
qed

lemma turn_off_all_lights_loop_result:
  "\<forall>method\<in>set methods. raises_only_Exception method \<Longrightarrow>
   \<exists>ok h'. turn_off_all_lights_loop methods h = (Inr ok, h')
     \<and> (\<not> ok \<longleftrightarrow>
          (\<forall>i<length methods. failed (fst ((methods ! i) (run_seq (take i methods) h)))))"
proof (induction methods arbitrary: h)
  case Nil
  show ?case by (auto simp: return_io_def)
next
  case (Cons m ms)
  obtain r h1 where m: "m h = (r, h1)" by (cases "m h")
  have no_base: "\<And>n. r \<noteq> Inl (BaseExn n)"
    using Cons.prems m by (auto simp: raises_only_Exception_def dest: spec [of _ h])
  have rest: "\<forall>method\<in>set ms. raises_only_Exception method"
    using Cons.prems by simp
  have shift: "(\<forall>i<length (m # ms). failed (fst (((m # ms) ! i) (run_seq (take i (m # ms)) h))))
     \<longleftrightarrow> failed r \<and> (\<forall>i<length ms. failed (fst ((ms ! i) (run_seq (take i ms) h1))))"
    using m by (simp add: All_less_Suc2)
  show ?case
  proof (cases "r = Inr True")
    case True
    have run: "turn_off_all_lights_loop (m # ms) h = (Inr True, h1)"
      using m True by (simp add: turn_off_all_lights_loop_step)
    have "\<not> failed r" using True by simp
    with shift have "\<not> (\<forall>i<length (m # ms).
        failed (fst (((m # ms) ! i) (run_seq (take i (m # ms)) h))))"
      by blast
    with run show ?thesis by blast
  next
    case False
    then have f: "failed r"
      using no_base by (cases r rule: failed.cases) auto
    then have "failed (fst (m h))" using m by simp
    then have "turn_off_all_lights_loop (m # ms) h = turn_off_all_lights_loop ms h1"
      using m by (simp add: turn_off_all_lights_loop_failed_head [of m h ms])
    with Cons.IH [OF rest, of h1] f shift show ?thesis by simp
  qed
qed

subsection \<open>The loop of \<open>emergency_light_off\<close>\<close>

lemma emergency_methods_loop_step:
  "emergency_methods_loop (method # methods) h =
     (case method h of
        (Inr ok, h') \<Rightarrow> if ok then (Inr True, h') else emergency_methods_loop methods h'
      | (Inl e, h') \<Rightarrow> (Inl e, h'))"
  by (simp add: io_defs split: prod.splits sum.splits)

declare emergency_methods_loop.simps(2) [simp del]

lemma emergency_methods_loop_single: "emergency_methods_loop [method] = method"
proof
  fix h
  show "emergency_methods_loop [method] h = method h"
    by (cases "method h")
       (auto simp: emergency_methods_loop_step return_io_def split: sum.splits)
qed

lemma emergency_light_off_eq_loop:
  "emergency_light_off env target proto =
     emergency_methods_loop (emergency_methods env target proto)"
  by (simp add: emergency_light_off_def emergency_methods_def emergency_methods_loop_single)

lemma emergency_methods_loop_first_success:
  "first_success_at returned_False methods k h \<Longrightarrow>
   emergency_methods_loop methods h = (Inr True, run_seq (take (Suc k) methods) h)"
proof (induction methods arbitrary: k h)
  case Nil
  then show ?case by (simp add: first_success_at_def)
next
  case (Cons m ms)
  show ?case
  proof (cases k)
    case 0
    then have "fst (m h) = Inr True"
      using Cons.prems by (simp add: first_success_at_def)
    then show ?thesis
      using 0 by (cases "m h") (simp add: emergency_methods_loop_step)
  next
    case (Suc j)
    have head: "fst (m h) = Inr False"
      using Cons.prems Suc
      by (auto simp: first_success_at_def returned_False_def dest: spec [of _ 0])
    have "first_success_at returned_False ms j (snd (m h))"
      unfolding first_success_at_def
    proof (intro conjI allI impI)
      show "j < length ms"
        using Cons.prems Suc by (simp add: first_success_at_def)
      show "fst ((ms ! j) (run_seq (take j ms) (snd (m h)))) = Inr True"
        using Cons.prems Suc by (simp add: first_success_at_def)
      fix i assume "i < j"
      then have "Suc i < k" using Suc by simp
      then have "returned_False (fst (((m # ms) ! Suc i) (run_seq (take (Suc i) (m # ms)) h)))"
        using Cons.prems unfolding first_success_at_def by blast
      then show "returned_False (fst ((ms ! i) (run_seq (take i ms) (snd (m h)))))" by simp
    qed
    from Cons.IH [OF this] show ?thesis
      using Suc head by (cases "m h") (simp add: emergency_methods_loop_step)
  qed
qed

subsection \<open>Strategies against the stubs\<close>

lemma rest_accepts_rest:
  "turn_off_via_rest rest_accepts bms0 h =
     (Inr True, h @ [Http POST ''192.168.1.100'' 80 (Path ''/api/lighting/all/off'')])"
  by (simp add: turn_off_via_rest_def rest_off_endpoints_def io_defs prim_defs
      rest_accepts_def bms0_def)

lemma soap_only_rest:
  "turn_off_via_rest soap_only bms0 h =
     (Inr False,
      h @ [Http POST ''192.168.1.100'' 80 (Path ''/api/lighting/all/off''),
           Http POST ''192.168.1.100'' 80 (Path ''/bms/lighting/off''),
           Http POST ''192.168.1.100'' 80 (Path ''/api/control/lighting/off''),
           Http POST ''192.168.1.100'' 80 (Path ''/lighting/off''),
           Http GET ''192.168.1.100'' 80 (Path ''/cmd/lightsoff'')])"
  by (simp add: turn_off_via_rest_def rest_off_endpoints_def io_defs prim_defs
      soap_only_def bms0_def)

lemma soap_only_soap:
  "turn_off_via_soap soap_only bms0 h =
     (Inr True, h @ [Http POST ''192.168.1.100'' 80 (Path ''/WebService.asmx'')])"
  by (simp add: turn_off_via_soap_def io_defs prim_defs soap_only_def bms0_def)

lemma cgi_only_rest:
  "turn_off_via_rest cgi_only bms0 h =
     (Inr False,
      h @ [Http POST ''192.168.1.100'' 80 (Path ''/api/lighting/all/off''),
           Http POST ''192.168.1.100'' 80 (Path ''/bms/lighting/off''),
           Http POST ''192.168.1.100'' 80 (Path ''/api/control/lighting/off''),
           Http POST ''192.168.1.100'' 80 (Path ''/lighting/off''),
           Http GET ''192.168.1.100'' 80 (Path ''/cmd/lightsoff'')])"
  by (simp add: turn_off_via_rest_def rest_off_endpoints_def io_defs prim_defs
      cgi_only_def bms0_def)

lemma cgi_only_soap:
  "turn_off_via_soap cgi_only bms0 h =
     (Inr False, h @ [Http POST ''192.168.1.100'' 80 (Path ''/WebService.asmx'')])"
  by (simp add: turn_off_via_soap_def io_defs prim_defs cgi_only_def bms0_def)

lemma cgi_only_simple_http:
  "turn_off_via_simple_http cgi_only bms0 h =
     (Inr True, h @ [Http GET ''192.168.1.100'' 80 (Path ''/lightoff.cgi?all=1'')])"
  by (simp add: turn_off_via_simple_http_def simple_http_commands_def io_defs prim_defs
      cgi_only_def bms0_def)

lemma knx_only_rest:
  "turn_off_lights_via_rest knx_only target h =
     (Inr False,
      h @ [Http POST target 80 (Path ''/api/lighting/all/off''),
           Http POST target 80 (Path ''/api/lighting/zone/all/off''),
           Http POST target 80 (Path ''/api/building/lighting/off''),
           Http POST target 80 (Path ''/api/system/lighting/off''),
           Http POST target 80 (Path ''/rest/lighting/all/off''),
           Http POST target 80 (Path ''/api/control/lighting''),
           Http POST target 80 (Path ''/api/command'')])"
  by (simp add: turn_off_lights_via_rest_def rest_endpoints_def rest_auth_endpoints_def
      io_defs prim_defs knx_only_def)

lemma knx_only_modbus:
  "turn_off_lights_via_modbus knx_only target h =
     (Inr False, h @ [SockOpen SOCK_STREAM, SockSetTimeout 5, SockConnect target 502])"
  by (simp add: turn_off_lights_via_modbus_def io_defs prim_defs knx_only_def)

lemma knx_only_knx:
  "turn_off_lights_via_knx knx_only target h =
     (Inr True,
      h @ [SockOpen SOCK_DGRAM, SockSetTimeout 5,
           SockSendTo ''0610020500140801c0a8016404d200000000000000000000'' target 3671,
           SockClose])"
  by (simp add: turn_off_lights_via_knx_def io_defs prim_defs knx_only_def)

subsection \<open>No failure leaves a dispatcher\<close>

lemma raises_only_Exception_sock_op:
  "raises_Exceptions_only env \<Longrightarrow> raises_only_Exception (sock_op env a)"
  by (auto simp: raises_only_Exception_def raises_Exceptions_only_def sock_op_def perform_def
      split: option.splits)

lemma raises_only_Exception_effect: "raises_only_Exception (effect a)"
  by (rule returns_raises_only_Exception [OF returns_effect])

lemma raises_only_Exception_return: "raises_only_Exception (return_io x)"
  by (rule returns_raises_only_Exception [OF returns_return])

lemma returns_turn_off_lights_via_rest: "returns (turn_off_lights_via_rest env target)"
  unfolding turn_off_lights_via_rest_def
  by (intro returns_try_except_Exception returns_raises_only_Exception returns_bind
        returns_try_each returns_return)
     (simp_all add: returns_return returns_bind returns_try_each)

lemma returns_turn_off_lights_via_modbus:
  "raises_Exceptions_only env \<Longrightarrow> returns (turn_off_lights_via_modbus env target)"
  unfolding turn_off_lights_via_modbus_def sock_open_def sock_settimeout_def sock_close_def
    sock_connect_def sock_send_def sock_recv_def
  by (intro returns_try_except_Exception returns_return raises_only_Exception_bind
        raises_only_Exception_effect raises_only_Exception_return
        raises_only_Exception_sock_op)

lemma returns_turn_off_lights_via_knx:
  "raises_Exceptions_only env \<Longrightarrow> returns (turn_off_lights_via_knx env target)"
  unfolding turn_off_lights_via_knx_def sock_open_def sock_settimeout_def sock_close_def
    sock_sendto_def
  by (intro returns_try_except_Exception returns_return raises_only_Exception_bind
        raises_only_Exception_effect raises_only_Exception_return
        raises_only_Exception_sock_op)

lemma returns_turn_off_lights_via_bacnet:
  "raises_Exceptions_only env \<Longrightarrow> returns (turn_off_lights_via_bacnet env target)"
  unfolding turn_off_lights_via_bacnet_def sock_open_def sock_settimeout_def sock_close_def
    sock_sendto_def
  by (intro returns_try_except_Exception returns_return raises_only_Exception_bind
        raises_only_Exception_effect raises_only_Exception_return
        raises_only_Exception_sock_op)

lemma returns_turn_off_lights_via_mqtt:
  "raises_Exceptions_only env \<Longrightarrow> returns (turn_off_lights_via_mqtt env target)"
  unfolding turn_off_lights_via_mqtt_def sock_open_def sock_settimeout_def sock_close_def
    sock_connect_def sock_send_def
  by (intro returns_try_except_Exception returns_return raises_only_Exception_bind
        raises_only_Exception_effect raises_only_Exception_return
        raises_only_Exception_sock_op)

lemma returns_emergency_methods:
  "raises_Exceptions_only env \<Longrightarrow>
   \<forall>method\<in>set (emergency_methods env target proto). returns method"
  by (simp add: emergency_methods_def returns_turn_off_lights_via_rest
      returns_turn_off_lights_via_modbus returns_turn_off_lights_via_knx
      returns_turn_off_lights_via_bacnet returns_turn_off_lights_via_mqtt)

lemma emergency_methods_loop_result:
  "\<forall>method\<in>set methods. returns method \<Longrightarrow>
   \<exists>ok h'. emergency_methods_loop methods h = (Inr ok, h')
     \<and> (\<not> ok \<longleftrightarrow>
          (\<forall>i<length methods.
             returned_False (fst ((methods ! i) (run_seq (take i methods) h)))))"
proof (induction methods arbitrary: h)
  case Nil
  show ?case by (auto simp: return_io_def)
next
  case (Cons m ms)
  obtain ok1 h1 where m: "m h = (Inr ok1, h1)"
    using Cons.prems returnsD [of m h] by auto
  have rest: "\<forall>method\<in>set ms. returns method"
    using Cons.prems by simp
  have shift: "(\<forall>i<length (m # ms).
        returned_False (fst (((m # ms) ! i) (run_seq (take i (m # ms)) h))))
     \<longleftrightarrow> \<not> ok1 \<and> (\<forall>i<length ms. returned_False (fst ((ms ! i) (run_seq (take i ms) h1))))"
    using m by (simp add: All_less_Suc2 returned_False_def)
  show ?case
  proof (cases ok1)
    case True
    have run: "emergency_methods_loop (m # ms) h = (Inr True, h1)"
      using m True by (simp add: emergency_methods_loop_step)
    from shift True have "\<not> (\<forall>i<length (m # ms).
        returned_False (fst (((m # ms) ! i) (run_seq (take i (m # ms)) h))))"
      by blast
    with run show ?thesis by blast
  next
    case False
    then have "emergency_methods_loop (m # ms) h = emergency_methods_loop ms h1"
      using m by (simp add: emergency_methods_loop_step)
    with Cons.IH [OF rest, of h1] False shift show ?thesis by simp
  qed
qed

text \<open>
  C2. A dispatch raises nothing, and reports failure only when its whole chain failed.
  \<open>turn_off_all_lights\<close>, whatever the network does: each of its five strategies
  returns a boolean from every trace (an exception or a timeout of any request, and any
  status that is no success, end as \<open>False\<close>), the dispatch returns a boolean, and
  that boolean is \<open>False\<close> exactly when every strategy of the chain, invoked in its
  turn, failed. \<open>emergency_light_off\<close>, whose strategies catch \<open>Exception\<close>:
  the same, on every network whose failures are instances of \<open>Exception\<close>.
\<close>

theorem dispatch_swallows_failures:
  "(\<forall>method\<in>set (bms_methods env self). returns method)
   \<and> (\<exists>ok h'. turn_off_all_lights env self h = (Inr ok, h')
        \<and> (\<not> ok \<longleftrightarrow>
             (\<forall>i<length (bms_methods env self).
                failed (fst ((bms_methods env self ! i)
                         (run_seq (take i (bms_methods env self)) h))))))
   \<and> (raises_Exceptions_only env \<longrightarrow>
        (\<exists>ok h'. emergency_light_off env target proto h = (Inr ok, h')
          \<and> (\<not> ok \<longleftrightarrow>
               (\<forall>i<length (emergency_methods env target proto).
                  returned_False (fst ((emergency_methods env target proto ! i)
                           (run_seq (take i (emergency_methods env target proto)) h)))))))"
proof (intro conjI impI)
  show "\<forall>method\<in>set (bms_methods env self). returns method"
    by (rule returns_bms_methods)
  have "\<forall>method\<in>set (bms_methods env self). raises_only_Exception method"
    using returns_bms_methods returns_raises_only_Exception by blast
  from turn_off_all_lights_loop_result [OF this]
  show "\<exists>ok h'. turn_off_all_lights env self h = (Inr ok, h')
        \<and> (\<not> ok \<longleftrightarrow>
             (\<forall>i<length (bms_methods env self).
                failed (fst ((bms_methods env self ! i)
                         (run_seq (take i (bms_methods env self)) h)))))"
    by (simp add: turn_off_all_lights_def)
next
  assume "raises_Exceptions_only env"
  then have "\<forall>method\<in>set (emergency_methods env target proto). returns method"
    by (rule returns_emergency_methods)
  from emergency_methods_loop_result [OF this]
  show "\<exists>ok h'. emergency_light_off env target proto h = (Inr ok, h')
          \<and> (\<not> ok \<longleftrightarrow>
               (\<forall>i<length (emergency_methods env target proto).
                  returned_False (fst ((emergency_methods env target proto ! i)
                           (run_seq (take i (emergency_methods env target proto)) h)))))"
    by (simp add: emergency_light_off_eq_loop)
qed

lemma all_interrupted_methods_fail:
  "method \<in> set (bms_methods all_interrupted bms0) \<Longrightarrow> fst (method h) = Inr False"
  by (auto simp: bms_methods_def turn_off_via_rest_def rest_off_endpoints_def
      turn_off_via_soap_def turn_off_via_simple_http_def simple_http_commands_def
      turn_off_via_bacnet_simulation_def turn_off_zone_by_zone_def
      get_lighting_zones_eq_loop lighting_zone_endpoints_def get_lighting_zones_loop_step
      endpoint_yield_def io_defs prim_defs all_interrupted_def)

lemma raises_Exceptions_only_nothing_listens: "raises_Exceptions_only nothing_listens"
  by (simp add: raises_Exceptions_only_def nothing_listens_def split: action.splits)

lemma nothing_listens_modbus:
  "turn_off_lights_via_modbus nothing_listens target h =
     (Inr False, h @ [SockOpen SOCK_STREAM, SockSetTimeout 5, SockConnect target 502])"
  by (simp add: turn_off_lights_via_modbus_def io_defs prim_defs nothing_listens_def)

theorem dispatch_swallows_failures_witness:
  "fst (turn_off_via_soap all_interrupted bms0 []) = Inr False
   \<and> fst (turn_off_all_lights all_interrupted bms0 []) = Inr False
   \<and> raises_Exceptions_only nothing_listens
   \<and> fst (emergency_light_off nothing_listens ''plc.local'' ''modbus'' []) = Inr False"
proof -
  let ?ms = "bms_methods all_interrupted bms0"
  have all_failed: "\<forall>i<length ?ms. failed (fst ((?ms ! i) (run_seq (take i ?ms) [])))"
  proof (intro allI impI)
    fix i assume "i < length ?ms"
    then have "?ms ! i \<in> set ?ms" by (rule nth_mem)
    then show "failed (fst ((?ms ! i) (run_seq (take i ?ms) [])))"
      by (simp add: all_interrupted_methods_fail)
  qed
  have soap: "fst (turn_off_via_soap all_interrupted bms0 []) = Inr False"
    by (rule all_interrupted_methods_fail) (simp add: bms_methods_def)
  have "\<exists>ok h'. turn_off_all_lights all_interrupted bms0 [] = (Inr ok, h')
      \<and> (\<not> ok \<longleftrightarrow> (\<forall>i<length ?ms. failed (fst ((?ms ! i) (run_seq (take i ?ms) [])))))"
    by (rule dispatch_swallows_failures
          [where env = all_interrupted and self = bms0 and h = "[]",
            THEN conjunct2, THEN conjunct1])
  then obtain ok h' where "turn_off_all_lights all_interrupted bms0 [] = (Inr ok, h')"
    and "\<not> ok \<longleftrightarrow> (\<forall>i<length ?ms. failed (fst ((?ms ! i) (run_seq (take i ?ms) []))))"
    by (elim exE conjE)
  with all_failed have bms: "fst (turn_off_all_lights all_interrupted bms0 []) = Inr False"
    by simp
  let ?es = "emergency_methods nothing_listens ''plc.local'' ''modbus''"
  have es_failed: "\<forall>i<length ?es. returned_False (fst ((?es ! i) (run_seq (take i ?es) [])))"
    by (simp add: emergency_methods_def returned_False_def nothing_listens_modbus)
  have "\<exists>ok h'. emergency_light_off nothing_listens ''plc.local'' ''modbus'' [] = (Inr ok, h')
      \<and> (\<not> ok \<longleftrightarrow>
           (\<forall>i<length ?es. returned_False (fst ((?es ! i) (run_seq (take i ?es) [])))))"
    by (rule dispatch_swallows_failures
          [where env = nothing_listens and h = "[]" and target = "''plc.local''"
             and proto = "''modbus''",
            THEN conjunct2, THEN conjunct2, THEN mp,
            OF raises_Exceptions_only_nothing_listens])
  then obtain ok2 h2
    where "emergency_light_off nothing_listens ''plc.local'' ''modbus'' [] = (Inr ok2, h2)"
    and "\<not> ok2 \<longleftrightarrow> (\<forall>i<length ?es. returned_False (fst ((?es ! i) (run_seq (take i ?es) []))))"
    by (elim exE conjE)
  with es_failed have
    "fst (emergency_light_off nothing_listens ''plc.local'' ''modbus'' []) = Inr False"
    by simp
  with soap bms raises_Exceptions_only_nothing_listens show ?thesis by simp
qed

subsection \<open>Strategy order\<close>

text \<open>
  C1, as stated, fails in its last part: the result of a dispatch is a bare boolean and
  names no strategy. Against a controller whose first working strategy is the REST
  command (index 0) and against one whose first working strategy is the SOAP call
  (index 1), \<open>turn_off_all_lights\<close> returns the same value, \<open>True\<close>.
\<close>

theorem turn_off_all_lights_result_names_no_strategy:
  "first_success_at failed (bms_methods rest_accepts bms0) 0 []
   \<and> first_success_at failed (bms_methods soap_only bms0) 1 []
   \<and> fst (turn_off_all_lights rest_accepts bms0 []) = Inr True
   \<and> fst (turn_off_all_lights soap_only bms0 []) = Inr True
   \<and> fst (turn_off_all_lights rest_accepts bms0 []) = fst (turn_off_all_lights soap_only bms0 [])"
proof -
  have a: "first_success_at failed (bms_methods rest_accepts bms0) 0 []"
    by (simp add: first_success_at_def bms_methods_def rest_accepts_rest)
  have b: "first_success_at failed (bms_methods soap_only bms0) 1 []"
    by (simp add: first_success_at_def bms_methods_def soap_only_rest soap_only_soap)
  have c: "fst (turn_off_all_lights rest_accepts bms0 []) = Inr True"
    using turn_off_all_lights_loop_first_success [OF a]
    by (simp add: turn_off_all_lights_def)
  have d: "fst (turn_off_all_lights soap_only bms0 []) = Inr True"
    using turn_off_all_lights_loop_first_success [OF b]
    by (simp add: turn_off_all_lights_def)
  from a b c d show ?thesis by simp
qed

text \<open>
  C1, amended. Both dispatchers try their strategies strictly in list order and stop at
  the first success. If strategy \<open>k\<close> is the first to report success (every strategy
  before it, invoked in its turn, failed), the dispatch returns \<open>True\<close>, and the
  trace it leaves is the trace of running strategies \<open>0, ..., k\<close> one after another
  and nothing else: every strategy before \<open>k\<close> was invoked, in order, and no action
  of a strategy after \<open>k\<close> took place. The result is the boolean alone. For
  \<open>turn_off_all_lights\<close> the list is its five methods; for
  \<open>emergency_light_off\<close> it is the list of the controller's protocol.
\<close>

theorem dispatch_in_strategy_order:
  "(first_success_at failed (bms_methods env self) k h \<longrightarrow>
      turn_off_all_lights env self h =
        (Inr True, run_seq (take (Suc k) (bms_methods env self)) h))
   \<and> (first_success_at returned_False (emergency_methods env target proto) k h \<longrightarrow>
      emergency_light_off env target proto h =
        (Inr True, run_seq (take (Suc k) (emergency_methods env target proto)) h))"
proof (intro conjI impI)
  assume "first_success_at failed (bms_methods env self) k h"
  then show "turn_off_all_lights env self h =
        (Inr True, run_seq (take (Suc k) (bms_methods env self)) h)"
    unfolding turn_off_all_lights_def by (rule turn_off_all_lights_loop_first_success)
next
  assume "first_success_at returned_False (emergency_methods env target proto) k h"
  then show "emergency_light_off env target proto h =
        (Inr True, run_seq (take (Suc k) (emergency_methods env target proto)) h)"
    unfolding emergency_light_off_eq_loop by (rule emergency_methods_loop_first_success)
qed

theorem dispatch_in_strategy_order_witness:
  "first_success_at failed (bms_methods cgi_only bms0) 2 []
   \<and> turn_off_all_lights cgi_only bms0 [] =
       (Inr True,
        [Http POST ''192.168.1.100'' 80 (Path ''/api/lighting/all/off''),
         Http POST ''192.168.1.100'' 80 (Path ''/bms/lighting/off''),
         Http POST ''192.168.1.100'' 80 (Path ''/api/control/lighting/off''),
         Http POST ''192.168.1.100'' 80 (Path ''/lighting/off''),
         Http GET ''192.168.1.100'' 80 (Path ''/cmd/lightsoff''),
         Http POST ''192.168.1.100'' 80 (Path ''/WebService.asmx''),
         Http GET ''192.168.1.100'' 80 (Path ''/lightoff.cgi?all=1'')])
   \<and> first_success_at returned_False (emergency_methods knx_only ''10.0.0.7'' ''dali'') 2 []
   \<and> emergency_light_off knx_only ''10.0.0.7'' ''dali'' [] =
       (Inr True,
        [Http POST ''10.0.0.7'' 80 (Path ''/api/lighting/all/off''),
         Http POST ''10.0.0.7'' 80 (Path ''/api/lighting/zone/all/off''),
         Http POST ''10.0.0.7'' 80 (Path ''/api/building/lighting/off''),
         Http POST ''10.0.0.7'' 80 (Path ''/api/system/lighting/off''),
         Http POST ''10.0.0.7'' 80 (Path ''/rest/lighting/all/off''),
         Http POST ''10.0.0.7'' 80 (Path ''/api/control/lighting''),
         Http POST ''10.0.0.7'' 80 (Path ''/api/command''),
         SockOpen SOCK_STREAM, SockSetTimeout 5, SockConnect ''10.0.0.7'' 502,
         SockOpen SOCK_DGRAM, SockSetTimeout 5,
         SockSendTo ''0610020500140801c0a8016404d200000000000000000000'' ''10.0.0.7'' 3671,
         SockClose])"
proof -
  have a: "first_success_at failed (bms_methods cgi_only bms0) 2 []"
    by (auto dest!: less_2_cases
        simp: first_success_at_def bms_methods_def cgi_only_rest cgi_only_soap
          cgi_only_simple_http)
  have b: "first_success_at returned_False (emergency_methods knx_only ''10.0.0.7'' ''dali'') 2 []"
    by (auto dest!: less_2_cases
        simp: first_success_at_def returned_False_def emergency_methods_def knx_only_rest
          knx_only_modbus knx_only_knx)
  have c: "turn_off_all_lights cgi_only bms0 [] =
      (Inr True, run_seq (take (Suc 2) (bms_methods cgi_only bms0)) [])"
    using dispatch_in_strategy_order [where env = cgi_only and self = bms0 and k = 2 and h = "[]"] a
    by blast
  have d: "emergency_light_off knx_only ''10.0.0.7'' ''dali'' [] =
      (Inr True, run_seq (take (Suc 2) (emergency_methods knx_only ''10.0.0.7'' ''dali'')) [])"
    using dispatch_in_strategy_order [where env = knx_only and k = 2 and h = "[]"
        and target = "''10.0.0.7''" and proto = "''dali''"] b
    by blast
  have c': "run_seq (take (Suc 2) (bms_methods cgi_only bms0)) [] =
        [Http POST ''192.168.1.100'' 80 (Path ''/api/lighting/all/off''),
         Http POST ''192.168.1.100'' 80 (Path ''/bms/lighting/off''),
         Http POST ''192.168.1.100'' 80 (Path ''/api/control/lighting/off''),
         Http POST ''192.168.1.100'' 80 (Path ''/lighting/off''),
         Http GET ''192.168.1.100'' 80 (Path ''/cmd/lightsoff''),
         Http POST ''192.168.1.100'' 80 (Path ''/WebService.asmx''),
         Http GET ''192.168.1.100'' 80 (Path ''/lightoff.cgi?all=1'')]"
    by (simp add: bms_methods_def cgi_only_rest cgi_only_soap cgi_only_simple_http)
  have d': "run_seq (take (Suc 2) (emergency_methods knx_only ''10.0.0.7'' ''dali'')) [] =
        [Http POST ''10.0.0.7'' 80 (Path ''/api/lighting/all/off''),
         Http POST ''10.0.0.7'' 80 (Path ''/api/lighting/zone/all/off''),
         Http POST ''10.0.0.7'' 80 (Path ''/api/building/lighting/off''),
         Http POST ''10.0.0.7'' 80 (Path ''/api/system/lighting/off''),
         Http POST ''10.0.0.7'' 80 (Path ''/rest/lighting/all/off''),
         Http POST ''10.0.0.7'' 80 (Path ''/api/control/lighting''),
         Http POST ''10.0.0.7'' 80 (Path ''/api/command''),
         SockOpen SOCK_STREAM, SockSetTimeout 5, SockConnect ''10.0.0.7'' 502,
         SockOpen SOCK_DGRAM, SockSetTimeout 5,
         SockSendTo ''0610020500140801c0a8016404d200000000000000000000'' ''10.0.0.7'' 3671,
         SockClose]"
    by (simp add: emergency_methods_def knx_only_rest knx_only_modbus knx_only_knx)
  from a b c d c' d' show ?thesis by simp
qed

section \<open>Dispatching twice\<close>

lemma history_independent_raise: "history_independent (raise_io e)"
  by (simp add: history_independent_def raise_io_def)

lemma history_independent_if:
  "history_independent p \<Longrightarrow> history_independent q \<Longrightarrow>
   history_independent (if c then p else q)"
  by simp

lemma history_independent_http_request:
  "stable env \<Longrightarrow> history_independent (http_request env v host prt p)"
  unfolding http_request_def
  by (rule history_independent_perform) (metis stable_def)

lemma history_independent_session_get:
  "stable env \<Longrightarrow> history_independent (session_get env self endpoint)"
  by (simp add: session_get_def history_independent_http_request)

lemma history_independent_session_post:
  "stable env \<Longrightarrow> history_independent (session_post env self endpoint)"
  by (simp add: session_post_def history_independent_http_request)

lemma history_independent_response_json: "history_independent (response_json r)"
  by (simp add: response_json_def history_independent_raise history_independent_return
      split: option.splits)

lemma history_independent_turn_off_via_rest:
  assumes "stable env"
  shows "history_independent (turn_off_via_rest env self)"
  unfolding turn_off_via_rest_def
proof (rule history_independent_try_each)
  fix x :: "path \<times> verb"
  obtain endpoint m where x: "x = (endpoint, m)" by (cases x)
  show "history_independent
     (case x of (endpoint, method) \<Rightarrow>
        bind_io (if method = POST then session_post env self endpoint
                 else session_get env self endpoint)
          (\<lambda>response. return_io (status_code response \<in> set [200, 201, 202])))"
    unfolding x prod.case
    by (intro history_independent_bind history_independent_if history_independent_return
          history_independent_session_post [OF assms]
          history_independent_session_get [OF assms])
qed

lemma history_independent_turn_off_via_soap:
  "stable env \<Longrightarrow> history_independent (turn_off_via_soap env self)"
  unfolding turn_off_via_soap_def
  by (intro history_independent_try_except history_independent_bind
        history_independent_return history_independent_session_post)

lemma history_independent_turn_off_via_simple_http:
  "stable env \<Longrightarrow> history_independent (turn_off_via_simple_http env self)"
  unfolding turn_off_via_simple_http_def
  by (intro history_independent_try_each history_independent_bind
        history_independent_return history_independent_session_get)

lemma history_independent_turn_off_via_bacnet_simulation:
  "stable env \<Longrightarrow> history_independent (turn_off_via_bacnet_simulation env self)"
  unfolding turn_off_via_bacnet_simulation_def
  by (intro history_independent_try_except history_independent_bind
        history_independent_return history_independent_session_post)

lemma history_independent_turn_off_zone:
  "stable env \<Longrightarrow> history_independent (turn_off_zone env self zone_id)"
  unfolding turn_off_zone_def
  by (intro history_independent_try_each history_independent_bind
        history_independent_return history_independent_session_post)

lemma history_independent_get_lighting_zones_loop:
  assumes "stable env"
  shows "history_independent (get_lighting_zones_loop env self endpoints)"
proof (induction endpoints)
  case Nil
  show ?case by (simp add: history_independent_return)
next
  case (Cons e es)
  have cont: "\<And>returned. history_independent
      (case returned of Some v \<Rightarrow> return_io v | None \<Rightarrow> get_lighting_zones_loop env self es)"
    by (simp add: history_independent_return Cons.IH split: option.splits)
  show ?case
    unfolding get_lighting_zones_loop.simps
    by (intro history_independent_bind history_independent_try_except
          history_independent_if history_independent_return
          history_independent_response_json
          history_independent_session_get [OF assms] cont)
qed

lemma history_independent_get_lighting_zones:
  "stable env \<Longrightarrow> history_independent (get_lighting_zones env self)"
  unfolding get_lighting_zones_def
  by (intro history_independent_try_except_Exception history_independent_return
        history_independent_get_lighting_zones_loop)

lemma history_independent_zones_loop:
  assumes "stable env"
  shows "history_independent (turn_off_zones_loop env self zones c)"
proof (induction zones arbitrary: c)
  case Nil
  show ?case by (simp add: history_independent_return)
next
  case (Cons zone zones)
  show ?case
    unfolding turn_off_zones_loop.simps sleep_def
    by (intro history_independent_bind history_independent_if history_independent_lift
          history_independent_effect Cons.IH history_independent_turn_off_zone [OF assms])
qed

lemma history_independent_turn_off_zone_by_zone:
  "stable env \<Longrightarrow> history_independent (turn_off_zone_by_zone env self)"
  unfolding turn_off_zone_by_zone_def
  by (intro history_independent_try_except_Exception history_independent_bind
        history_independent_if history_independent_return history_independent_lift
        history_independent_zones_loop history_independent_get_lighting_zones)

lemma history_independent_all_lights_loop:
  "\<forall>method\<in>set methods. history_independent method \<Longrightarrow>
   history_independent (turn_off_all_lights_loop methods)"
proof (induction methods)
  case Nil
  show ?case by (simp add: history_independent_return)
next
  case (Cons m ms)
  have m: "history_independent m" and ms: "\<forall>method\<in>set ms. history_independent method"
    using Cons.prems by simp_all
  show ?case
    unfolding turn_off_all_lights_loop.simps
    by (intro history_independent_bind history_independent_try_except_Exception
          history_independent_if history_independent_return m Cons.IH [OF ms])
qed

lemma history_independent_turn_off_all_lights:
  "stable env \<Longrightarrow> history_independent (turn_off_all_lights env self)"
  unfolding turn_off_all_lights_def
  by (rule history_independent_all_lights_loop)
     (simp add: bms_methods_def history_independent_turn_off_via_rest
        history_independent_turn_off_via_soap history_independent_turn_off_via_simple_http
        history_independent_turn_off_via_bacnet_simulation
        history_independent_turn_off_zone_by_zone)

text \<open>
  C9. Against a stub whose responses do not change, a dispatch that succeeded succeeds
  again when it is repeated right after: the second dispatch starts from the trace the
  first one left, issues the same requests once more and returns \<open>True\<close>. The
  result depends on the responses alone; nothing in the dispatch looks at a state of the
  lights.
\<close>

theorem turn_off_all_lights_idempotent:
  assumes "stable env"
    and "turn_off_all_lights env self h = (Inr True, h1)"
  shows "\<exists>issued. h1 = h @ issued
           \<and> turn_off_all_lights env self h1 = (Inr True, h1 @ issued)"
proof -
  have hi: "history_independent (turn_off_all_lights env self)"
    by (rule history_independent_turn_off_all_lights [OF assms(1)])
  obtain r issued where base: "turn_off_all_lights env self [] = (r, issued)"
    by (cases "turn_off_all_lights env self []")
  have first: "turn_off_all_lights env self h = (r, h @ issued)"
    by (rule history_independent_run [OF hi base])
  with assms(2) have r: "r = Inr True" and h1: "h1 = h @ issued" by simp_all
  have "turn_off_all_lights env self h1 = (r, h1 @ issued)"
    by (rule history_independent_run [OF hi base])
  with r h1 show ?thesis by blast
qed

lemma stable_cgi_only: "stable cgi_only"
  by (simp add: stable_def cgi_only_def)

theorem turn_off_all_lights_idempotent_witness:
  "stable cgi_only
   \<and> fst (turn_off_all_lights cgi_only bms0 []) = Inr True
   \<and> fst (turn_off_all_lights cgi_only bms0 (snd (turn_off_all_lights cgi_only bms0 []))) = Inr True"
proof -
  have first: "first_success_at failed (bms_methods cgi_only bms0) 2 []"
    by (auto dest!: less_2_cases
        simp: first_success_at_def bms_methods_def cgi_only_rest cgi_only_soap
          cgi_only_simple_http)
  obtain h1 where run: "turn_off_all_lights cgi_only bms0 [] = (Inr True, h1)"
    using turn_off_all_lights_loop_first_success [OF first]
    by (simp add: turn_off_all_lights_def)
  from turn_off_all_lights_idempotent [OF stable_cgi_only run]
  have "fst (turn_off_all_lights cgi_only bms0 h1) = Inr True" by auto
  with run stable_cgi_only show ?thesis by simp
qed

section \<open>Discovery\<close>

lemma returns_check_controller: "returns (check_controller env ip prt protocol)"
  by (simp add: check_controller_def returns_try_except returns_return)

lemma history_independent_sock_op:
  "stable env \<Longrightarrow> history_independent (sock_op env a)"
  unfolding sock_op_def
  by (rule history_independent_perform) (metis stable_def)

lemma history_independent_sock_connect_ex:
  "stable env \<Longrightarrow> history_independent (sock_connect_ex env host prt)"
  unfolding sock_connect_ex_def
  by (rule history_independent_perform) (metis stable_def)

lemma history_independent_check_controller:
  "stable env \<Longrightarrow> history_independent (check_controller env ip prt protocol)"
  unfolding check_controller_def sock_open_def sock_settimeout_def sock_close_def
    sock_sendto_def
  by (intro history_independent_try_except history_independent_if history_independent_bind
        history_independent_return history_independent_effect
        history_independent_sock_op history_independent_sock_connect_ex)

lemma check_controller_stable:
  assumes "stable env"
  shows "\<exists>h'. check_controller env ip prt protocol h = (Inr (probe_ok env ip prt protocol), h')"
proof -
  obtain ok h' where run: "check_controller env ip prt protocol h = (Inr ok, h')"
    using returnsD [OF returns_check_controller] by blast
  have "fst (check_controller env ip prt protocol []) = fst (check_controller env ip prt protocol h)"
    by (rule history_independent_fst [OF history_independent_check_controller [OF assms]])
  then have "probe_ok env ip prt protocol = ok"
    using run by (auto simp: probe_ok_def)
  with run show ?thesis by blast
qed

lemma discover_protocols_loop_stable:
  assumes "stable env"
  shows "\<exists>h'. discover_protocols_loop env target catalog found h =
     (Inr (found @ map (found_entry target)
             (filter (\<lambda>entry. probe_ok env target (fst (snd entry)) (snd (snd entry))) catalog)),
      h')"
proof (induction catalog arbitrary: found h)
  case Nil
  show ?case by (simp add: return_io_def)
next
  case (Cons entry rest)
  obtain protocol_name prt proto where entry: "entry = (protocol_name, prt, proto)"
    by (cases entry)
  obtain h1 where probe: "check_controller env target prt proto h =
      (Inr (probe_ok env target prt proto), h1)"
    using check_controller_stable [OF assms] by blast
  let ?found' = "if probe_ok env target prt proto
      then found @ [\<lparr>found_ip = target, found_port = prt, found_protocol = protocol_name,
                      found_type = proto\<rparr>]
      else found"
  obtain h2 where tail: "discover_protocols_loop env target rest ?found' h1 =
     (Inr (?found' @ map (found_entry target)
             (filter (\<lambda>entry. probe_ok env target (fst (snd entry)) (snd (snd entry))) rest)),
      h2)"
    using Cons.IH [of ?found' h1] by blast
  have "discover_protocols_loop env target (entry # rest) found h =
      discover_protocols_loop env target rest ?found' h1"
    using probe by (simp add: entry bind_io_def)
  with tail show ?case
    by (auto simp: entry found_entry_def)
qed

lemma discover_controllers_loop_stable:
  assumes "stable env"
  shows "\<exists>h'. discover_controllers_loop env targets catalog found h =
     (Inr (found @ reachable_pairs env targets catalog), h')"
proof (induction targets arbitrary: found h)
  case Nil
  show ?case by (simp add: return_io_def reachable_pairs_def)
next
  case (Cons target rest)
  obtain h1 where inner: "discover_protocols_loop env target catalog found h =
     (Inr (found @ map (found_entry target)
             (filter (\<lambda>entry. probe_ok env target (fst (snd entry)) (snd (snd entry))) catalog)),
      h1)"
    using discover_protocols_loop_stable [OF assms] by blast
  let ?found' = "found @ map (found_entry target)
      (filter (\<lambda>entry. probe_ok env target (fst (snd entry)) (snd (snd entry))) catalog)"
  obtain h2 where tail: "discover_controllers_loop env rest catalog ?found' h1 =
     (Inr (?found' @ reachable_pairs env rest catalog), h2)"
    using Cons.IH [of ?found' h1] by blast
  have "discover_controllers_loop env (target # rest) catalog found h =
      discover_controllers_loop env rest catalog ?found' h1"
    using inner by (simp add: bind_io_def)
  with tail show ?case
    by (simp add: reachable_pairs_def)
qed

lemma set_reachable_pairs:
  "set (reachable_pairs env targets catalog) =
     {found_entry target entry | target entry.
        target \<in> set targets \<and> entry \<in> set catalog
        \<and> probe_ok env target (fst (snd entry)) (snd (snd entry))}"
  by (fastforce simp: reachable_pairs_def)

lemma found_entry_inj: "found_entry t e = found_entry t' e' \<Longrightarrow> t = t' \<and> e = e'"
  by (cases e, cases e') (simp add: found_entry_def)

lemma distinct_reachable_pairs:
  assumes "distinct targets" and "distinct (map fst catalog)"
  shows "distinct (reachable_pairs env targets catalog)"
  using assms(1)
proof (induction targets)
  case Nil
  show ?case by (simp add: reachable_pairs_def)
next
  case (Cons t ts)
  have cat: "distinct catalog"
    using assms(2) by (rule distinct_map [THEN iffD1, THEN conjunct1])
  have inner: "distinct (map (found_entry t)
      (filter (\<lambda>entry. probe_ok env t (fst (snd entry)) (snd (snd entry))) catalog))"
    using cat by (auto simp: distinct_map inj_on_def dest: found_entry_inj)
  have rest: "distinct (reachable_pairs env ts catalog)"
    using Cons by simp
  have disjoint: "set (map (found_entry t)
      (filter (\<lambda>entry. probe_ok env t (fst (snd entry)) (snd (snd entry))) catalog))
      \<inter> set (reachable_pairs env ts catalog) = {}"
    using Cons.prems by (auto simp: set_reachable_pairs dest: found_entry_inj)
  have "reachable_pairs env (t # ts) catalog =
      map (found_entry t)
        (filter (\<lambda>entry. probe_ok env t (fst (snd entry)) (snd (snd entry))) catalog)
      @ reachable_pairs env ts catalog"
    by (simp add: reachable_pairs_def)
  with inner rest disjoint show ?case by simp
qed

text \<open>
  C8, as stated, fails: nothing folds duplicates. A target list that names one address
  twice has its pairs probed twice, and a reachable pair is appended twice.
\<close>

theorem discover_building_controllers_keeps_duplicates:
  "fst (discover_building_controllers nothing_listens
         \<lparr>building_protocols = [(''knx'', 3671, ''UDP'')],
          common_controllers = [''10.0.0.7'', ''10.0.0.7'']\<rparr> [])
   = Inr [\<lparr>found_ip = ''10.0.0.7'', found_port = 3671, found_protocol = ''knx'',
            found_type = ''UDP''\<rparr>,
          \<lparr>found_ip = ''10.0.0.7'', found_port = 3671, found_protocol = ''knx'',
            found_type = ''UDP''\<rparr>]"
  by (simp add: discover_building_controllers_def check_controller_udp bind_io_def
      return_io_def nothing_listens_def)

lemma probe_protocols_step:
  assumes "check_controller env target prt proto h = (Inr ok, h1)"
  shows "probe_protocols env target ((protocol_name, prt, proto) # rest) h =
           (((target, (protocol_name, prt, proto)), ok) # fst (probe_protocols env target rest h1),
            snd (probe_protocols env target rest h1))"
  using assms by (simp add: Let_def)

declare probe_protocols.simps(2) [simp del]

lemma found_of_log_Cons:
  "found_of_log ((pair, ok) # log) =
     (if ok then found_entry (fst pair) (snd pair) # found_of_log log else found_of_log log)"
  by (simp add: found_of_log_def)

lemma found_of_log_append: "found_of_log (xs @ ys) = found_of_log xs @ found_of_log ys"
  by (simp add: found_of_log_def)

lemma discover_protocols_loop_log:
  "discover_protocols_loop env target catalog found h =
     (Inr (found @ found_of_log (fst (probe_protocols env target catalog h))),
      snd (probe_protocols env target catalog h))"
proof (induction catalog arbitrary: found h)
  case Nil
  show ?case by (simp add: return_io_def found_of_log_def)
next
  case (Cons entry rest)
  obtain protocol_name prt proto where entry: "entry = (protocol_name, prt, proto)"
    by (cases entry)
  obtain ok h1 where probe: "check_controller env target prt proto h = (Inr ok, h1)"
    using returnsD [OF returns_check_controller] by blast
  let ?found' = "if ok
      then found @ [\<lparr>found_ip = target, found_port = prt, found_protocol = protocol_name,
                      found_type = proto\<rparr>]
      else found"
  have step: "discover_protocols_loop env target ((protocol_name, prt, proto) # rest) found h =
      discover_protocols_loop env target rest ?found' h1"
    using probe by (simp add: bind_io_def)
  have tail: "discover_protocols_loop env target rest ?found' h1 =
     (Inr (?found' @ found_of_log (fst (probe_protocols env target rest h1))),
      snd (probe_protocols env target rest h1))"
    by (rule Cons.IH)
  show ?case
    unfolding entry step tail probe_protocols_step [OF probe]
    by (simp add: found_of_log_Cons found_entry_def)
qed

lemma discover_controllers_loop_log:
  "discover_controllers_loop env targets catalog found h =
     (Inr (found @ found_of_log (fst (probe_targets env targets catalog h))),
      snd (probe_targets env targets catalog h))"
proof (induction targets arbitrary: found h)
  case Nil
  show ?case by (simp add: return_io_def found_of_log_def)
next
  case (Cons target rest)
  let ?first = "probe_protocols env target catalog h"
  have "discover_controllers_loop env (target # rest) catalog found h =
      discover_controllers_loop env rest catalog (found @ found_of_log (fst ?first)) (snd ?first)"
    by (simp add: bind_io_def discover_protocols_loop_log)
  then show ?case
    by (simp add: Cons.IH Let_def found_of_log_append)
qed

lemma probed_pairs_protocols:
  "map fst (fst (probe_protocols env target catalog h)) = map (Pair target) catalog"
proof (induction catalog arbitrary: h)
  case Nil
  show ?case by simp
next
  case (Cons entry rest)
  obtain protocol_name prt proto where entry: "entry = (protocol_name, prt, proto)"
    by (cases entry)
  obtain ok h1 where probe: "check_controller env target prt proto h = (Inr ok, h1)"
    using returnsD [OF returns_check_controller] by blast
  show ?case
    unfolding entry probe_protocols_step [OF probe]
    by (simp add: Cons.IH)
qed

lemma probed_pairs:
  "map fst (probe_log env targets catalog h) = List.product targets catalog"
  unfolding probe_log_def
  by (induction targets arbitrary: h) (simp_all add: Let_def probed_pairs_protocols)

lemma set_found_of_log:
  "set (found_of_log log) = {found_entry t e | t e. ((t, e), True) \<in> set log}"
  by (force simp: found_of_log_def)

lemma distinct_found_of_log:
  assumes "distinct (map fst log)"
  shows "distinct (found_of_log log)"
proof -
  have "distinct (map fst (filter snd log))"
    using assms by (rule distinct_map_filter)
  then have "distinct (map (\<lambda>pair. found_entry (fst pair) (snd pair)) (map fst (filter snd log)))"
    by (auto simp: distinct_map inj_on_def dest: found_entry_inj intro: prod_eqI)
  then show ?thesis
    by (simp add: found_of_log_def comp_def)
qed

lemma probe_protocols_stable:
  assumes "stable env"
  shows "found_of_log (fst (probe_protocols env target catalog h)) =
     map (found_entry target)
       (filter (\<lambda>entry. probe_ok env target (fst (snd entry)) (snd (snd entry))) catalog)"
proof -
  obtain h' where "discover_protocols_loop env target catalog [] h =
     (Inr ([] @ map (found_entry target)
             (filter (\<lambda>entry. probe_ok env target (fst (snd entry)) (snd (snd entry))) catalog)),
      h')"
    using discover_protocols_loop_stable [OF assms] by blast
  then show ?thesis
    by (simp add: discover_protocols_loop_log)
qed

lemma probe_log_stable:
  assumes "stable env"
  shows "found_of_log (probe_log env targets catalog h) = reachable_pairs env targets catalog"
proof -
  obtain h' where "discover_controllers_loop env targets catalog [] h =
     (Inr ([] @ reachable_pairs env targets catalog), h')"
    using discover_controllers_loop_stable [OF assms] by blast
  then show ?thesis
    by (simp add: discover_controllers_loop_log probe_log_def)
qed

text \<open>
  C8, amended. For every target list, catalog and network, the nested loops probe every
  pair of the cross product, target by target and catalog entry by catalog entry, once
  for every occurrence of the target in the list, and the result of the discovery is
  exactly the pairs whose probe reported reachable, in that order. Nothing folds
  duplicates: a pair is in the result at most once when no target is listed twice (the
  names of a catalog are the keys of a dictionary, hence distinct). Given deterministic
  probe outcomes (a network whose replies do not change), the result is the list of the
  pairs that are reachable, a function of the probe outcomes alone.
\<close>

theorem discover_building_controllers_cross_product:
  "(\<exists>h'. discover_building_controllers env self h =
      (Inr (found_of_log
              (probe_log env (common_controllers self) (building_protocols self) h)), h'))
   \<and> map fst (probe_log env (common_controllers self) (building_protocols self) h) =
       List.product (common_controllers self) (building_protocols self)
   \<and> set (found_of_log (probe_log env (common_controllers self) (building_protocols self) h)) =
       {found_entry target entry | target entry.
          ((target, entry), True)
            \<in> set (probe_log env (common_controllers self) (building_protocols self) h)}
   \<and> (distinct (common_controllers self) \<and> distinct (map fst (building_protocols self))
       \<longrightarrow> distinct (found_of_log
              (probe_log env (common_controllers self) (building_protocols self) h)))
   \<and> (stable env
       \<longrightarrow> found_of_log (probe_log env (common_controllers self) (building_protocols self) h)
           = reachable_pairs env (common_controllers self) (building_protocols self))"
proof (intro conjI impI)
  show "\<exists>h'. discover_building_controllers env self h =
      (Inr (found_of_log
              (probe_log env (common_controllers self) (building_protocols self) h)), h')"
    by (simp add: discover_building_controllers_def discover_controllers_loop_log probe_log_def)
  show "map fst (probe_log env (common_controllers self) (building_protocols self) h) =
       List.product (common_controllers self) (building_protocols self)"
    by (rule probed_pairs)
  show "set (found_of_log (probe_log env (common_controllers self) (building_protocols self) h)) =
       {found_entry target entry | target entry.
          ((target, entry), True)
            \<in> set (probe_log env (common_controllers self) (building_protocols self) h)}"
    by (rule set_found_of_log)
next
  assume d: "distinct (common_controllers self) \<and> distinct (map fst (building_protocols self))"
  then have "distinct (building_protocols self)"
    by (simp add: distinct_map)
  with d have "distinct (List.product (common_controllers self) (building_protocols self))"
    by (simp add: distinct_product)
  then have "distinct (map fst
      (probe_log env (common_controllers self) (building_protocols self) h))"
    by (simp add: probed_pairs)
  then show "distinct (found_of_log
      (probe_log env (common_controllers self) (building_protocols self) h))"
    by (rule distinct_found_of_log)
next
  assume "stable env"
  then show "found_of_log (probe_log env (common_controllers self) (building_protocols self) h)
           = reachable_pairs env (common_controllers self) (building_protocols self)"
    by (rule probe_log_stable)
qed

lemma stable_nothing_listens: "stable nothing_listens"
  by (simp add: stable_def nothing_listens_def)

lemma probe_ok_nothing_listens:
  "probe_ok nothing_listens target prt proto \<longleftrightarrow> proto = ''UDP''"
  by (simp add: probe_ok_def check_controller_def io_defs prim_defs nothing_listens_def)

lemma probe_log_warms_up:
  "probe_log warms_up [''10.0.0.1'', ''10.0.0.2''] [(''modbus'', 502, ''TCP'')] [] =
     [((''10.0.0.1'', ''modbus'', 502, ''TCP''), False),
      ((''10.0.0.2'', ''modbus'', 502, ''TCP''), True)]"
  by (simp add: probe_log_def probe_protocols.simps(2) Let_def check_controller_def io_defs
      prim_defs warms_up_def)

text \<open>
  On \<open>warms_up\<close>, whose first connection attempt is refused and whose second is
  accepted, the discovery of two addresses finds the second one, as its probe reported,
  although a probe of either address before anything else would be refused. On
  \<open>nothing_listens\<close>, whose replies do not change, the built-in catalog has the two
  UDP protocols reachable at every address.
\<close>

theorem discover_building_controllers_cross_product_witness:
  "fst (discover_building_controllers warms_up
          \<lparr>building_protocols = [(''modbus'', 502, ''TCP'')],
           common_controllers = [''10.0.0.1'', ''10.0.0.2'']\<rparr> [])
     = Inr [\<lparr>found_ip = ''10.0.0.2'', found_port = 502, found_protocol = ''modbus'',
              found_type = ''TCP''\<rparr>]
   \<and> reachable_pairs warms_up [''10.0.0.1'', ''10.0.0.2''] [(''modbus'', 502, ''TCP'')] = []
   \<and> stable nothing_listens
   \<and> distinct (common_controllers init_building_controller)
   \<and> distinct (map fst (building_protocols init_building_controller))
   \<and> distinct (found_of_log (probe_log nothing_listens
        (common_controllers init_building_controller)
        (building_protocols init_building_controller) []))
   \<and> fst (discover_building_controllers nothing_listens
            (init_building_controller\<lparr>common_controllers := [''plc.local'']\<rparr>) [])
      = Inr [\<lparr>found_ip = ''plc.local'', found_port = 3671, found_protocol = ''knx'',
               found_type = ''UDP''\<rparr>,
             \<lparr>found_ip = ''plc.local'', found_port = 47808, found_protocol = ''bacnet'',
               found_type = ''UDP''\<rparr>]"
proof -
  let ?two = "\<lparr>building_protocols = [(''modbus'', 502, ''TCP'')],
               common_controllers = [''10.0.0.1'', ''10.0.0.2'']\<rparr>"
  have "\<exists>h'. discover_building_controllers warms_up ?two [] =
      (Inr (found_of_log
              (probe_log warms_up (common_controllers ?two) (building_protocols ?two) [])), h')"
    by (rule discover_building_controllers_cross_product
          [where env = warms_up and self = ?two and h = "[]", THEN conjunct1])
  then have changing: "fst (discover_building_controllers warms_up ?two [])
      = Inr [\<lparr>found_ip = ''10.0.0.2'', found_port = 502, found_protocol = ''modbus'',
               found_type = ''TCP''\<rparr>]"
    by (auto simp: probe_log_warms_up found_of_log_def found_entry_def)
  have unreachable:
    "reachable_pairs warms_up [''10.0.0.1'', ''10.0.0.2''] [(''modbus'', 502, ''TCP'')] = []"
    by (simp add: reachable_pairs_def probe_ok_def check_controller_def io_defs prim_defs
        warms_up_def)
  have targets: "distinct (common_controllers init_building_controller)"
    by (simp add: init_building_controller_def)
  have names: "distinct (map fst (building_protocols init_building_controller))"
    by (simp add: init_building_controller_def)
  have once: "distinct (found_of_log (probe_log nothing_listens
        (common_controllers init_building_controller)
        (building_protocols init_building_controller) []))"
    by (rule discover_building_controllers_cross_product
          [where env = nothing_listens and self = init_building_controller and h = "[]",
           THEN conjunct2, THEN conjunct2, THEN conjunct2, THEN conjunct1, THEN mp,
           OF conjI [OF targets names]])
  let ?one = "init_building_controller\<lparr>common_controllers := [''plc.local'']\<rparr>"
  have run: "\<exists>h'. discover_building_controllers nothing_listens ?one [] =
      (Inr (found_of_log
              (probe_log nothing_listens (common_controllers ?one) (building_protocols ?one) [])),
       h')"
    by (rule discover_building_controllers_cross_product
          [where env = nothing_listens and self = ?one and h = "[]", THEN conjunct1])
  have "found_of_log
          (probe_log nothing_listens (common_controllers ?one) (building_protocols ?one) [])
      = reachable_pairs nothing_listens (common_controllers ?one) (building_protocols ?one)"
    by (rule discover_building_controllers_cross_product
          [where env = nothing_listens and self = ?one and h = "[]",
           THEN conjunct2, THEN conjunct2, THEN conjunct2, THEN conjunct2, THEN mp,
           OF stable_nothing_listens])
  with run have "fst (discover_building_controllers nothing_listens ?one []) =
      Inr (reachable_pairs nothing_listens (common_controllers ?one) (building_protocols ?one))"
    by auto
  then have found: "fst (discover_building_controllers nothing_listens ?one [])
      = Inr [\<lparr>found_ip = ''plc.local'', found_port = 3671, found_protocol = ''knx'',
               found_type = ''UDP''\<rparr>,
             \<lparr>found_ip = ''plc.local'', found_port = 47808, found_protocol = ''bacnet'',
               found_type = ''UDP''\<rparr>]"
    by (simp add: reachable_pairs_def probe_ok_nothing_listens found_entry_def
        init_building_controller_def)
  from changing unreachable stable_nothing_listens targets names once found
  show ?thesis by (intro conjI)
qed

section \<open>Properties of \<open>encrypt_tplink\<close>\<close>

lemma xor_byte_bound:
  fixes a b :: nat
  assumes "a < 256" and "b < 256"
  shows "a XOR b < 256"
proof -
  have "int a XOR int b < 2 ^ 8"
    using assms by (intro XOR_upper) simp_all
  then have "int (a XOR b) < 256"
    by (simp add: of_nat_xor_eq)
  then show ?thesis by simp
qed

lemma encrypt_tplink_loop_chain:
  "key < 256 \<Longrightarrow> \<forall>c\<in>set data. c < 256 \<Longrightarrow>
   encrypt_tplink_loop key data result = Inr (result @ xor_chain key data)"
proof (induction data arbitrary: key result)
  case Nil
  then show ?case by simp
next
  case (Cons c cs)
  have "key XOR c < 256"
    using Cons.prems by (simp add: xor_byte_bound)
  then show ?case
    using Cons by (simp add: Let_def)
qed

lemma length_xor_chain: "length (xor_chain key data) = length data"
  by (induction data arbitrary: key) simp_all

lemma xor_chain_bytes:
  "key < 256 \<Longrightarrow> \<forall>c\<in>set data. c < 256 \<Longrightarrow> \<forall>b\<in>set (xor_chain key data). b < 256"
proof (induction data arbitrary: key)
  case Nil
  then show ?case by simp
next
  case (Cons c cs)
  have k: "key XOR c < 256"
    using Cons.prems by (simp add: xor_byte_bound)
  have "\<forall>b\<in>set (xor_chain (key XOR c) cs). b < 256"
    using Cons.IH [OF k] Cons.prems by simp
  with k show ?case by simp
qed

lemma xor_chain_nth:
  "i < length data \<Longrightarrow>
   xor_chain key data ! i = (if i = 0 then key else xor_chain key data ! (i - 1)) XOR data ! i"
proof (induction data arbitrary: key i)
  case Nil
  then show ?case by simp
next
  case (Cons c cs)
  show ?case
  proof (cases i)
    case 0
    then show ?thesis by simp
  next
    case (Suc j)
    then have "j < length cs" using Cons.prems by simp
    from Cons.IH [OF this, of "key XOR c"] Suc show ?thesis
      by (cases j) simp_all
  qed
qed

text \<open>
  C10. For a command of at most 255 characters, all with code points below 256,
  \<open>encrypt_tplink\<close> returns \<open>len(data) + 4\<close> bytes: the header \<open>0, 0, 0, len(data)\<close>,
  then the XOR chain seeded with 171, in which every ciphertext byte is the plaintext
  character XORed with the previous ciphertext byte. For a command of more than 255
  characters it raises (\<open>ValueError\<close>, from the \<open>bytearray\<close> constructor) and returns
  nothing.
\<close>

theorem encrypt_tplink_correct:
  "(length data \<le> 255 \<and> (\<forall>c\<in>set data. c < 256) \<longrightarrow>
      (\<exists>out. encrypt_tplink data = Inr out
         \<and> length out = length data + 4
         \<and> take 4 out = [0, 0, 0, length data]
         \<and> (\<forall>i<length data.
              out ! (i + 4) = (if i = 0 then 171 else out ! (i + 3)) XOR data ! i)
         \<and> (\<forall>b\<in>set out. b < 256)))
   \<and> (255 < length data \<longrightarrow> encrypt_tplink data = Inl (Exn ''ValueError''))"
proof (intro conjI impI)
  assume short: "length data \<le> 255 \<and> (\<forall>c\<in>set data. c < 256)"
  let ?hdr = "[0, 0, 0, length data]"
  let ?out = "?hdr @ xor_chain 171 data"
  have run: "encrypt_tplink data = Inr ?out"
    using short by (simp add: encrypt_tplink_def encrypt_tplink_loop_chain)
  have len: "length ?out = length data + 4"
    by (simp add: length_xor_chain)
  have hdr: "take 4 ?out = ?hdr"
    by simp
  have chain: "\<forall>i<length data.
      ?out ! (i + 4) = (if i = 0 then 171 else ?out ! (i + 3)) XOR data ! i"
  proof (intro allI impI)
    fix i assume i: "i < length data"
    have a: "?out ! (i + 4) = xor_chain 171 data ! i"
      by (simp add: nth_append)
    have b: "0 < i \<Longrightarrow> ?out ! (i + 3) = xor_chain 171 data ! (i - 1)"
      by (simp add: nth_append)
    show "?out ! (i + 4) = (if i = 0 then 171 else ?out ! (i + 3)) XOR data ! i"
      using xor_chain_nth [OF i, of 171] a b by (cases "i = 0") simp_all
  qed
  have bytes: "\<forall>b\<in>set ?out. b < 256"
    using short xor_chain_bytes [of 171 data] by auto
  show "\<exists>out. encrypt_tplink data = Inr out
         \<and> length out = length data + 4
         \<and> take 4 out = [0, 0, 0, length data]
         \<and> (\<forall>i<length data.
              out ! (i + 4) = (if i = 0 then 171 else out ! (i + 3)) XOR data ! i)
         \<and> (\<forall>b\<in>set out. b < 256)"
    using run len hdr chain bytes by blast
next
  assume "255 < length data"
  then show "encrypt_tplink data = Inl (Exn ''ValueError'')"
    by (simp add: encrypt_tplink_def)
qed

theorem encrypt_tplink_correct_witness:
  "length [97, 98 :: nat] \<le> 255
   \<and> encrypt_tplink [97, 98] = Inr [0, 0, 0, 2, 202, 168]
   \<and> 255 < length (replicate 256 (0 :: nat))
   \<and> encrypt_tplink (replicate 256 0) = Inl (Exn ''ValueError'')"
proof -
  have a: "encrypt_tplink [97, 98] = Inr [0, 0, 0, 2, 202, 168]"
    using encrypt_tplink_correct [of "[97, 98]"]
    by (simp add: encrypt_tplink_def)
  have b: "encrypt_tplink (replicate 256 0) = Inl (Exn ''ValueError'')"
    using encrypt_tplink_correct [of "replicate 256 0"] by simp
  show ?thesis using a b by simp
qed

end
